theory Spec2Isabelle
  imports Complex_Main
begin

section \<open>Dates, errors, signals and log records\<close>

text \<open>
  A \<^verbatim>\<open>datetime.date\<close> is modelled by its distance in days from
  \<^verbatim>\<open>date.min = date(1, 1, 1)\<close>, so \<^verbatim>\<open>date(1, 1, 1)\<close> is \<open>0\<close>
  and \<^verbatim>\<open>date.max = date(9999, 12, 31)\<close> is \<open>3652058\<close>.  Adding a
  \<^verbatim>\<open>timedelta\<close> that leaves this range raises \<^verbatim>\<open>OverflowError\<close>.
\<close>

type_synonym date = nat

type_synonym kwargs = "(string \<times> int) list"

datatype start_type = sowing | emergence

datatype end_type = maturity | harvest | earliest

datatype zero_condition = rising | falling | either

text \<open>The payload of \<^verbatim>\<open>exc.PCSEError\<close>, one constructor per message of the module.\<close>

datatype pcse_msg =
    StartNotInWindow date string date "date option"
  | SignalNotDefined string
  | MultiDays string "date list"
  | TimedEventNotInInterval date date "date option"
  | MultiStates string "real list"
  | EmptyAgromanagement
  | CampaignStartNotDate
  | CampaignsNotSequential

text \<open>
  Exceptions.  \<open>IndexError\<close>, \<open>TypeError\<close> and \<open>AttributeError\<close> carry the
  expression that raised them, so that the sites can be told apart.
\<close>

datatype error =
    PCSEError pcse_msg
  | TypeError string
  | IndexError string
  | ValueError string
  | AttributeError string
  | KeyError string
  | OverflowError

datatype sigargs =
    CropStartArgs date string start_type end_type
  | CropFinishArgs date string bool
  | KwArgs kwargs
  | NoArgs

datatype logmsg =
    StartingCrop string date
  | TimeEventDispatched string date
  | StateEventDispatched string real
  | StateNotAvailable string

text \<open>
  What a call does besides changing the object: signals sent on the bus
  (\<^verbatim>\<open>_send_signal\<close>, with the value of the attribute of \<^verbatim>\<open>signals\<close>) and
  records handed to the logger, in program order.
\<close>

datatype effect =
    Signal string sigargs
  | LogInfo logmsg
  | LogWarning logmsg

text \<open>Whether an effect is the crop-start, respectively the crop-finish, signal.\<close>

fun is_crop_start :: "effect \<Rightarrow> bool" where
  "is_crop_start (Signal s a) = (s = ''CROP_START'')"
| "is_crop_start (LogInfo m) = False"
| "is_crop_start (LogWarning m) = False"

fun is_crop_finish :: "effect \<Rightarrow> bool" where
  "is_crop_finish (Signal s a) = (s = ''CROP_FINISH'')"
| "is_crop_finish (LogInfo m) = False"
| "is_crop_finish (LogWarning m) = False"

fun is_signal :: "effect \<Rightarrow> bool" where
  "is_signal (Signal s a) = True"
| "is_signal (LogInfo m) = False"
| "is_signal (LogWarning m) = False"

definition date_plus_days :: "date \<Rightarrow> int \<Rightarrow> error + date" where
  "date_plus_days d n =
     (let r = int d + n
      in if 0 \<le> r \<and> r \<le> 3652058 then Inr (nat r) else Inl OverflowError)"

text \<open>\<^verbatim>\<open>date(y, m, d)\<close> for a valid calendar day, after \<^verbatim>\<open>_ymd2ord\<close> of the standard library.\<close>

definition is_leap :: "nat \<Rightarrow> bool" where
  "is_leap y = (y mod 4 = 0 \<and> (y mod 100 \<noteq> 0 \<or> y mod 400 = 0))"

definition days_before_year :: "nat \<Rightarrow> nat" where
  "days_before_year y = (y - 1) * 365 + (y - 1) div 4 - (y - 1) div 100 + (y - 1) div 400"

definition days_before_month :: "nat \<Rightarrow> nat \<Rightarrow> nat" where
  "days_before_month y m =
     sum_list (take (m - 1) [31, if is_leap y then 29 else 28, 31, 30, 31, 30, 31, 31, 30, 31, 30, 31])"

definition ymd :: "nat \<Rightarrow> nat \<Rightarrow> nat \<Rightarrow> date" where
  "ymd y m d = days_before_year y + days_before_month y m + d - 1"

text \<open>The module's \<^verbatim>\<open>signals = TestSignals()\<close>: attribute name and value.\<close>

definition TestSignals :: "(string \<times> string) list" where
  "TestSignals =
     [(''apply_npk'', ''APPLY_NPK''), (''irrigate'', ''IRRIGATE''),
      (''crop_finish'', ''CROP_FINISH''), (''crop_start'', ''CROP_START'')]"

definition hasattr_signals :: "string \<Rightarrow> bool" where
  "hasattr_signals a = (map_of TestSignals a \<noteq> None)"

definition getattr_signals :: "string \<Rightarrow> error + string" where
  "getattr_signals a =
     (case map_of TestSignals a of None \<Rightarrow> Inl (AttributeError a) | Some v \<Rightarrow> Inr v)"

definition check_date_range :: "date \<Rightarrow> date \<Rightarrow> date option \<Rightarrow> bool" where
  "check_date_range day start end =
     (case end of None \<Rightarrow> start \<le> day | Some e \<Rightarrow> start \<le> day \<and> day < e)"

section \<open>CropCalendar\<close>

record CropCalendar =
  crop_id :: string
  crop_start_date :: date
  crop_start_type :: start_type
  crop_end_date :: "date option"
  crop_end_type :: end_type
  max_duration :: int
  duration :: int
  in_crop_cycle :: bool

text \<open>\<^verbatim>\<open>CropCalendar.__init__\<close>: \<open>duration\<close> and \<open>in_crop_cycle\<close> start at the trait defaults.\<close>

definition CropCalendar_init ::
  "string \<Rightarrow> date \<Rightarrow> start_type \<Rightarrow> date option \<Rightarrow> end_type \<Rightarrow> int \<Rightarrow> CropCalendar" where
  "CropCalendar_init cid sd st ed et md =
     \<lparr>crop_id = cid, crop_start_date = sd, crop_start_type = st, crop_end_date = ed,
      crop_end_type = et, max_duration = md, duration = 0, in_crop_cycle = False\<rparr>"

text \<open>
  \<^verbatim>\<open>CropCalendar.validate\<close>.  Comparing a date with \<^verbatim>\<open>None\<close> raises
  \<^verbatim>\<open>TypeError\<close>.  The first message has one \<^verbatim>\<open>%s\<close> and is formatted with a
  pair, so that branch raises \<^verbatim>\<open>TypeError\<close> from the \<^verbatim>\<open>%\<close> operator and
  the \<^verbatim>\<open>PCSEError\<close> is never built.
\<close>

definition CropCalendar_validate :: "CropCalendar \<Rightarrow> date \<Rightarrow> date option \<Rightarrow> error + unit" where
  "CropCalendar_validate cc campaign_start_date next_campaign_start_date =
     (case (if crop_end_type cc = maturity
            then map_sum id Some (date_plus_days (crop_start_date cc) (max_duration cc))
            else Inr (crop_end_date cc)) of
        Inl e \<Rightarrow> Inl e
      | Inr None \<Rightarrow> Inl (TypeError ''crop_start_date >= crop_end_date'')
      | Inr (Some e) \<Rightarrow>
          if crop_start_date cc \<ge> e then Inl (TypeError ''msg % (crop_start_date, crop_end_date)'')
          else if \<not> check_date_range (crop_start_date cc) campaign_start_date next_campaign_start_date
          then Inl (PCSEError (StartNotInWindow (crop_start_date cc) (crop_id cc)
                                 campaign_start_date next_campaign_start_date))
          else Inr ())"

text \<open>\<^verbatim>\<open>CropCalendar._on_CROP_FINISH\<close>, the handler connected to \<^verbatim>\<open>signals.crop_finish\<close>.\<close>

definition CropCalendar_on_CROP_FINISH :: "CropCalendar \<Rightarrow> CropCalendar" where
  "CropCalendar_on_CROP_FINISH cc = cc\<lparr>in_crop_cycle := False\<rparr>"

text \<open>
  \<^verbatim>\<open>CropCalendar.__call__\<close> in its three parts: the duration counter, the start of
  the cycle, and the end of the cycle.  \<open>finish_type\<close> is the local variable of that
  name after both checks.
\<close>

definition count_duration :: "CropCalendar \<Rightarrow> CropCalendar" where
  "count_duration cc = (if in_crop_cycle cc then cc\<lparr>duration := duration cc + 1\<rparr> else cc)"

definition start_crop :: "date \<Rightarrow> CropCalendar \<Rightarrow> CropCalendar \<times> effect list" where
  "start_crop day cc =
     (if day = crop_start_date cc
      then (cc\<lparr>duration := 0, in_crop_cycle := True\<rparr>,
            [LogInfo (StartingCrop (crop_id cc) day),
             Signal ''CROP_START'' (CropStartArgs day (crop_id cc) (crop_start_type cc) (crop_end_type cc))])
      else (cc, []))"

definition finish_type :: "date \<Rightarrow> CropCalendar \<Rightarrow> error + string option" where
  "finish_type day cc =
     (case (if crop_end_type cc \<in> {harvest, earliest}
            then (case crop_end_date cc of
                    None \<Rightarrow> Inl (TypeError ''day >= crop_end_date'')
                  | Some e \<Rightarrow> Inr (if day \<ge> e then Some ''harvest'' else None))
            else Inr None) of
        Inl e \<Rightarrow> Inl e
      | Inr ft \<Rightarrow> Inr (if duration cc \<ge> max_duration cc then Some ''max_duration'' else ft))"

definition CropCalendar_call :: "date \<Rightarrow> CropCalendar \<Rightarrow> error + (CropCalendar \<times> effect list)" where
  "CropCalendar_call day cc =
     (let (cc1, out) = start_crop day (count_duration cc)
      in case finish_type day cc1 of
           Inl e \<Rightarrow> Inl e
         | Inr None \<Rightarrow> Inr (cc1, out)
         | Inr (Some ft) \<Rightarrow>
             Inr (CropCalendar_on_CROP_FINISH (cc1\<lparr>in_crop_cycle := False\<rparr>),
                  out @ [Signal ''CROP_FINISH'' (CropFinishArgs day ft True)]))"

text \<open>
  \<^verbatim>\<open>CropCalendar.get_end_date\<close> returns the attribute as it is, so the result is
  \<^verbatim>\<open>None\<close> when no end date was given.
\<close>

definition CropCalendar_get_end_date :: "CropCalendar \<Rightarrow> error + date option" where
  "CropCalendar_get_end_date cc =
     (if crop_end_type cc \<in> {harvest, earliest}
      then Inr (crop_end_date cc)
      else map_sum id Some (date_plus_days (crop_start_date cc) (max_duration cc)))"

text \<open>Calling a calendar on a sequence of days; an exception ends the run.\<close>

fun CropCalendar_run :: "CropCalendar \<Rightarrow> date list \<Rightarrow> error + (CropCalendar \<times> effect list)" where
  "CropCalendar_run cc [] = Inr (cc, [])"
| "CropCalendar_run cc (day # days) =
     (case CropCalendar_call day cc of
        Inl e \<Rightarrow> Inl e
      | Inr (cc', out) \<Rightarrow>
          (case CropCalendar_run cc' days of
             Inl e \<Rightarrow> Inl e
           | Inr (cc'', outs) \<Rightarrow> Inr (cc'', out @ outs)))"

section \<open>Dictionaries and counters\<close>

text \<open>
  A \<^verbatim>\<open>dict\<close> is the list of its items in iteration order, with distinct keys:
  \<^verbatim>\<open>d.keys()[0]\<close> is the key of the first item, \<^verbatim>\<open>k in d\<close> and \<^verbatim>\<open>d[k]\<close> are
  \<open>map_of\<close>.  A \<^verbatim>\<open>collections.Counter\<close> is the list of its keys with their counts,
  in order of first insertion; \<^verbatim>\<open>update\<close> with a list of keys counts each of them.
\<close>

definition wf_dict :: "('k \<times> 'v) list \<Rightarrow> bool" where
  "wf_dict d = distinct (map fst d)"

fun counter_incr :: "'k \<Rightarrow> ('k \<times> nat) list \<Rightarrow> ('k \<times> nat) list" where
  "counter_incr k [] = [(k, 1)]"
| "counter_incr k ((k', n) # c) =
     (if k = k' then (k', n + 1) # c else (k', n) # counter_incr k c)"

definition counter_update :: "('k \<times> nat) list \<Rightarrow> 'k list \<Rightarrow> ('k \<times> nat) list" where
  "counter_update c ks = fold counter_incr ks c"

text \<open>\<^verbatim>\<open>c[k]\<close> for a counter: the count of a key, zero when the key is missing.\<close>

definition counter_get :: "('k \<times> nat) list \<Rightarrow> 'k \<Rightarrow> nat" where
  "counter_get c k = (case map_of c k of None \<Rightarrow> 0 | Some n \<Rightarrow> n)"

text \<open>The loop \<^verbatim>\<open>for ev in self.events_table: counter.update(ev.keys())\<close>.\<close>

definition count_keys :: "('k \<times> 'v) list list \<Rightarrow> ('k \<times> nat) list" where
  "count_keys events_table = fold (\<lambda>ev c. counter_update c (map fst ev)) events_table []"

text \<open>The loop that collects the keys whose count is more than one.\<close>

definition multi_keys :: "('k \<times> nat) list \<Rightarrow> 'k list" where
  "multi_keys c = map fst (filter (\<lambda>kn. snd kn > 1) c)"

fun max_list :: "nat \<Rightarrow> nat list \<Rightarrow> nat" where
  "max_list m [] = m"
| "max_list m (x # xs) = max_list (max m x) xs"

section \<open>TimedEventsDispatcher\<close>

record TimedEventsDispatcher =
  te_event_signal :: string
  te_events_table :: "(date \<times> kwargs) list list"
  days_with_events :: "(date \<times> nat) list"
  te_name :: string
  te_comment :: string

definition TimedEventsDispatcher_init ::
  "string \<Rightarrow> string \<Rightarrow> string \<Rightarrow> (date \<times> kwargs) list list \<Rightarrow> error + TimedEventsDispatcher" where
  "TimedEventsDispatcher_init event_signal name comment events_table =
     (if \<not> hasattr_signals event_signal then Inl (PCSEError (SignalNotDefined event_signal))
      else case getattr_signals event_signal of
        Inl e \<Rightarrow> Inl e
      | Inr sig \<Rightarrow>
          let dwe = count_keys events_table;
              multi_days = multi_keys dwe
          in if multi_days \<noteq> [] then Inl (PCSEError (MultiDays name multi_days))
             else Inr \<lparr>te_event_signal = sig, te_events_table = events_table,
                       days_with_events = dwe, te_name = name, te_comment = comment\<rparr>)"

fun validate_events :: "(date \<times> kwargs) list list \<Rightarrow> date \<Rightarrow> date option \<Rightarrow> error + unit" where
  "validate_events [] campaign_start_date next_campaign_start_date = Inr ()"
| "validate_events (event # events) campaign_start_date next_campaign_start_date =
     (case event of
        [] \<Rightarrow> Inl (IndexError ''event.keys()[0]'')
      | (day, kw) # _ \<Rightarrow>
          if \<not> check_date_range day campaign_start_date next_campaign_start_date
          then Inl (PCSEError (TimedEventNotInInterval day campaign_start_date next_campaign_start_date))
          else validate_events events campaign_start_date next_campaign_start_date)"

definition TimedEventsDispatcher_validate ::
  "TimedEventsDispatcher \<Rightarrow> date \<Rightarrow> date option \<Rightarrow> error + unit" where
  "TimedEventsDispatcher_validate te campaign_start_date next_campaign_start_date =
     validate_events (te_events_table te) campaign_start_date next_campaign_start_date"

definition TimedEventsDispatcher_call :: "date \<Rightarrow> TimedEventsDispatcher \<Rightarrow> effect list" where
  "TimedEventsDispatcher_call day te =
     (if map_of (days_with_events te) day = None then []
      else concat (map (\<lambda>event. case map_of event day of
                                   None \<Rightarrow> []
                                 | Some kw \<Rightarrow> [LogInfo (TimeEventDispatched (te_name te) day),
                                              Signal (te_event_signal te) (KwArgs kw)])
                       (te_events_table te)))"

definition TimedEventsDispatcher_get_end_date :: "TimedEventsDispatcher \<Rightarrow> error + date" where
  "TimedEventsDispatcher_get_end_date te =
     (case map fst (days_with_events te) of
        [] \<Rightarrow> Inl (ValueError ''max() arg is an empty sequence'')
      | d # ds \<Rightarrow> Inr (max_list d ds))"

section \<open>StateEventsDispatcher\<close>

text \<open>
  The watched value and the thresholds are numbers; they are modelled as reals.
  \<open>cmp0 x\<close> is \<^verbatim>\<open>cmp(x, 0)\<close>.
\<close>

record StateEventsDispatcher =
  se_event_signal :: string
  event_state :: string
  zero_condition :: zero_condition
  se_events_table :: "(real \<times> kwargs) list list"
  se_name :: string
  se_comment :: string
  previous_signs :: "int option list"
  states_with_events :: "(real \<times> nat) list"

definition StateEventsDispatcher_init ::
  "string \<Rightarrow> string \<Rightarrow> zero_condition \<Rightarrow> string \<Rightarrow> string \<Rightarrow> (real \<times> kwargs) list list
     \<Rightarrow> error + StateEventsDispatcher" where
  "StateEventsDispatcher_init event_signal state zc name comment events_table =
     (if \<not> hasattr_signals event_signal then Inl (PCSEError (SignalNotDefined event_signal))
      else case getattr_signals event_signal of
        Inl e \<Rightarrow> Inl e
      | Inr sig \<Rightarrow>
          let swe = count_keys events_table;
              multi_states = multi_keys swe
          in if multi_states \<noteq> [] then Inl (PCSEError (MultiStates name multi_states))
             else Inr \<lparr>se_event_signal = sig, event_state = state, zero_condition = zc,
                       se_events_table = events_table, se_name = name, se_comment = comment,
                       previous_signs = replicate (length events_table) None,
                       states_with_events = swe\<rparr>)"

definition cmp0 :: "real \<Rightarrow> int" where
  "cmp0 x = (if x < 0 then - 1 else if x = 0 then 0 else 1)"

definition zero_condition_falling ::
  "StateEventsDispatcher \<Rightarrow> real \<Rightarrow> real \<Rightarrow> kwargs \<Rightarrow> int option \<Rightarrow> int \<times> effect list" where
  "zero_condition_falling se current_state state keywords zero_condition_sign =
     (let sign = cmp0 (current_state - state)
      in case zero_condition_sign of
           None \<Rightarrow> (sign, [])
         | Some z \<Rightarrow>
             if z = 1 \<and> sign \<in> {- 1, 0}
             then (sign, [LogInfo (StateEventDispatched (se_name se) state),
                          Signal (se_event_signal se) (KwArgs keywords)])
             else (sign, []))"

definition zero_condition_rising ::
  "StateEventsDispatcher \<Rightarrow> real \<Rightarrow> real \<Rightarrow> kwargs \<Rightarrow> int option \<Rightarrow> int \<times> effect list" where
  "zero_condition_rising se current_state state keywords zero_condition_sign =
     (let sign = cmp0 (current_state - state)
      in case zero_condition_sign of
           None \<Rightarrow> (sign, [])
         | Some z \<Rightarrow>
             if z = - 1 \<and> sign \<in> {0, 1}
             then (sign, [LogInfo (StateEventDispatched (se_name se) current_state),
                          Signal (se_event_signal se) (KwArgs keywords)])
             else (sign, []))"

definition zero_condition_either ::
  "StateEventsDispatcher \<Rightarrow> real \<Rightarrow> real \<Rightarrow> kwargs \<Rightarrow> int option \<Rightarrow> int \<times> effect list" where
  "zero_condition_either se current_state state keywords zero_condition_sign =
     (let sign = cmp0 (current_state - state)
      in case zero_condition_sign of
           None \<Rightarrow> (sign, [])
         | Some z \<Rightarrow>
             if (z = 1 \<and> sign \<in> {- 1, 0}) \<or> (z = - 1 \<and> sign \<in> {0, 1})
             then (sign, [LogInfo (StateEventDispatched (se_name se) state),
                          Signal (se_event_signal se) (KwArgs keywords)])
             else (sign, []))"

text \<open>\<^verbatim>\<open>self._evaluate_state\<close>, the method chosen by \<^verbatim>\<open>__init__\<close>.\<close>

definition evaluate_state ::
  "StateEventsDispatcher \<Rightarrow> real \<Rightarrow> real \<Rightarrow> kwargs \<Rightarrow> int option \<Rightarrow> int \<times> effect list" where
  "evaluate_state se =
     (case zero_condition se of
        falling \<Rightarrow> zero_condition_falling se
      | rising \<Rightarrow> zero_condition_rising se
      | either \<Rightarrow> zero_condition_either se)"

text \<open>The loop of \<^verbatim>\<open>StateEventsDispatcher.__call__\<close> over the zipped table and signs.\<close>

fun evaluate_events ::
  "StateEventsDispatcher \<Rightarrow> real \<Rightarrow> ((real \<times> kwargs) list \<times> int option) list
     \<Rightarrow> error + (int option list \<times> effect list)" where
  "evaluate_events se current_state [] = Inr ([], [])"
| "evaluate_events se current_state ((event, zero_condition_sign) # rest) =
     (case event of
        [] \<Rightarrow> Inl (IndexError ''event.items()[0]'')
      | (state, keywords) # _ \<Rightarrow>
          (case evaluate_state se current_state state keywords zero_condition_sign of
             (zcs, out) \<Rightarrow>
               (case evaluate_events se current_state rest of
                  Inl e \<Rightarrow> Inl e
                | Inr (signs, outs) \<Rightarrow> Inr (Some zcs # signs, out @ outs))))"

text \<open>The kiosk is the registry of the simulation: a map from variable names to values.\<close>

type_synonym kiosk = "string \<rightharpoonup> real"

definition StateEventsDispatcher_call ::
  "kiosk \<Rightarrow> date \<Rightarrow> StateEventsDispatcher \<Rightarrow> error + (StateEventsDispatcher \<times> effect list)" where
  "StateEventsDispatcher_call kiosk day se =
     (case kiosk (event_state se) of
        None \<Rightarrow> Inr (se, [LogWarning (StateNotAvailable (event_state se))])
      | Some current_state \<Rightarrow>
          (case evaluate_events se current_state (zip (se_events_table se) (previous_signs se)) of
             Inl e \<Rightarrow> Inl e
           | Inr (signs, out) \<Rightarrow> Inr (se\<lparr>previous_signs := signs\<rparr>, out)))"

text \<open>One dispatcher observing the watched variable on successive ticks.\<close>

fun StateEventsDispatcher_run ::
  "StateEventsDispatcher \<Rightarrow> (kiosk \<times> date) list \<Rightarrow> error + (StateEventsDispatcher \<times> effect list)" where
  "StateEventsDispatcher_run se [] = Inr (se, [])"
| "StateEventsDispatcher_run se ((kiosk, day) # ticks) =
     (case StateEventsDispatcher_call kiosk day se of
        Inl e \<Rightarrow> Inl e
      | Inr (se', out) \<Rightarrow>
          (case StateEventsDispatcher_run se' ticks of
             Inl e \<Rightarrow> Inl e
           | Inr (se'', outs) \<Rightarrow> Inr (se'', out @ outs)))"

section \<open>AgroManager\<close>

text \<open>
  The agromanagement definition: a list of campaigns, each a dictionary from the
  campaign start to the campaign definition or \<^verbatim>\<open>None\<close>.  A key that is not
  a date is kept, since \<^verbatim>\<open>_check_campaign_date\<close> tests for it.  The keyword arguments
  of the three constructors are records.
\<close>

datatype campaign_key = DateKey date | OtherKey string

record CropCalendar_kw =
  kw_crop_id :: string
  kw_crop_start_date :: date
  kw_crop_start_type :: start_type
  kw_crop_end_date :: "date option"
  kw_crop_end_type :: end_type
  kw_max_duration :: int

record TimedEvents_kw =
  kw_te_event_signal :: string
  kw_te_name :: string
  kw_te_comment :: string
  kw_te_events_table :: "(date \<times> kwargs) list list"

record StateEvents_kw =
  kw_se_event_signal :: string
  kw_se_event_state :: string
  kw_se_zero_condition :: zero_condition
  kw_se_name :: string
  kw_se_comment :: string
  kw_se_events_table :: "(real \<times> kwargs) list list"

record campaign_def =
  CropCalendar_item :: "CropCalendar_kw option"
  TimedEvents_item :: "TimedEvents_kw list option"
  StateEvents_item :: "StateEvents_kw list option"

type_synonym campaign = "(campaign_key \<times> campaign_def option) list"

text \<open>
  The fields \<^verbatim>\<open>_start_date\<close>, \<^verbatim>\<open>_end_date\<close>, \<^verbatim>\<open>_tmp_date\<close> and
  \<^verbatim>\<open>_icampaign\<close> are written without the underscore.  The last entry
  of \<open>campaign_start_dates\<close> is the \<^verbatim>\<open>None\<close> appended by \<^verbatim>\<open>initialize\<close>.
\<close>

record AgroManager =
  campaign_start_dates :: "date option list"
  start_date :: "date option"
  end_date :: "date option"
  crop_calendars :: "CropCalendar option list"
  timed_event_dispatchers :: "TimedEventsDispatcher list option list"
  state_event_dispatchers :: "StateEventsDispatcher list option list"
  tmp_date :: "date option"
  icampaign :: nat

definition AgroManager_new :: AgroManager where
  "AgroManager_new =
     \<lparr>campaign_start_dates = [], start_date = None, end_date = None, crop_calendars = [],
      timed_event_dispatchers = [], state_event_dispatchers = [], tmp_date = None, icampaign = 0\<rparr>"

text \<open>\<^verbatim>\<open>isinstance(campaign_start_date, date)\<close>.\<close>

fun as_date :: "campaign_key \<Rightarrow> date option" where
  "as_date (DateKey d) = Some d"
| "as_date (OtherKey s) = None"

definition AgroManager_check_campaign_date :: "campaign_key \<Rightarrow> AgroManager \<Rightarrow> error + AgroManager" where
  "AgroManager_check_campaign_date campaign_start_date am =
     (case as_date campaign_start_date of
        None \<Rightarrow> Inl (PCSEError CampaignStartNotDate)
      | Some d \<Rightarrow>
          (case tmp_date am of
             None \<Rightarrow> Inr (am\<lparr>tmp_date := Some d\<rparr>)
           | Some t \<Rightarrow> if d \<le> t then Inl (PCSEError CampaignsNotSequential) else Inr am))"

text \<open>
  The first loop of \<^verbatim>\<open>initialize\<close>.  A key that passed the check is a date, so the
  last branch is never taken.
\<close>

fun check_campaigns :: "campaign list \<Rightarrow> AgroManager \<Rightarrow> error + AgroManager" where
  "check_campaigns [] am = Inr am"
| "check_campaigns (campaign # rest) am =
     (case campaign of
        [] \<Rightarrow> Inl (IndexError ''campaign.keys()[0]'')
      | (campaign_start_date, body) # _ \<Rightarrow>
          (case AgroManager_check_campaign_date campaign_start_date am of
             Inl e \<Rightarrow> Inl e
           | Inr am' \<Rightarrow>
               (case as_date campaign_start_date of
                  Some d \<Rightarrow>
                    check_campaigns rest
                      (am'\<lparr>campaign_start_dates := campaign_start_dates am' @ [Some d]\<rparr>)
                | None \<Rightarrow> Inl (PCSEError CampaignStartNotDate))))"

fun AgroManager_build_TimedEventDispatchers ::
  "TimedEvents_kw list \<Rightarrow> error + TimedEventsDispatcher list" where
  "AgroManager_build_TimedEventDispatchers [] = Inr []"
| "AgroManager_build_TimedEventDispatchers (ev_def # event_definitions) =
     (case TimedEventsDispatcher_init (kw_te_event_signal ev_def) (kw_te_name ev_def)
             (kw_te_comment ev_def) (kw_te_events_table ev_def) of
        Inl e \<Rightarrow> Inl e
      | Inr ev_dispatcher \<Rightarrow>
          (case AgroManager_build_TimedEventDispatchers event_definitions of
             Inl e \<Rightarrow> Inl e
           | Inr r \<Rightarrow> Inr (ev_dispatcher # r)))"

fun AgroManager_build_StateEventDispatchers ::
  "StateEvents_kw list \<Rightarrow> error + StateEventsDispatcher list" where
  "AgroManager_build_StateEventDispatchers [] = Inr []"
| "AgroManager_build_StateEventDispatchers (ev_def # event_definitions) =
     (case StateEventsDispatcher_init (kw_se_event_signal ev_def) (kw_se_event_state ev_def)
             (kw_se_zero_condition ev_def) (kw_se_name ev_def) (kw_se_comment ev_def)
             (kw_se_events_table ev_def) of
        Inl e \<Rightarrow> Inl e
      | Inr ev_dispatcher \<Rightarrow>
          (case AgroManager_build_StateEventDispatchers event_definitions of
             Inl e \<Rightarrow> Inl e
           | Inr r \<Rightarrow> Inr (ev_dispatcher # r)))"

fun validate_dispatchers :: "TimedEventsDispatcher list \<Rightarrow> date \<Rightarrow> date option \<Rightarrow> error + unit" where
  "validate_dispatchers [] campaign_start next_campaign = Inr ()"
| "validate_dispatchers (te # te_dsp) campaign_start next_campaign =
     (case TimedEventsDispatcher_validate te campaign_start next_campaign of
        Inl e \<Rightarrow> Inl e
      | Inr u \<Rightarrow> validate_dispatchers te_dsp campaign_start next_campaign)"

text \<open>The three parts of the body of the second loop of \<^verbatim>\<open>initialize\<close>.\<close>

definition build_crop_calendar ::
  "CropCalendar_kw option \<Rightarrow> date \<Rightarrow> date option \<Rightarrow> error + CropCalendar option" where
  "build_crop_calendar cc_def campaign_start next_campaign =
     (case cc_def of
        None \<Rightarrow> Inr None
      | Some kw \<Rightarrow>
          (let cc = CropCalendar_init (kw_crop_id kw) (kw_crop_start_date kw) (kw_crop_start_type kw)
                      (kw_crop_end_date kw) (kw_crop_end_type kw) (kw_max_duration kw)
           in case CropCalendar_validate cc campaign_start next_campaign of
                Inl e \<Rightarrow> Inl e
              | Inr u \<Rightarrow> Inr (Some cc)))"

definition build_timed_events ::
  "TimedEvents_kw list option \<Rightarrow> date \<Rightarrow> date option \<Rightarrow> error + TimedEventsDispatcher list option" where
  "build_timed_events te_def campaign_start next_campaign =
     (case te_def of
        None \<Rightarrow> Inr None
      | Some defs \<Rightarrow>
          (case AgroManager_build_TimedEventDispatchers defs of
             Inl e \<Rightarrow> Inl e
           | Inr te_dsp \<Rightarrow>
               (case validate_dispatchers te_dsp campaign_start next_campaign of
                  Inl e \<Rightarrow> Inl e
                | Inr u \<Rightarrow> Inr (Some te_dsp))))"

definition build_state_events ::
  "StateEvents_kw list option \<Rightarrow> error + StateEventsDispatcher list option" where
  "build_state_events se_def =
     (case se_def of
        None \<Rightarrow> Inr None
      | Some defs \<Rightarrow> map_sum id Some (AgroManager_build_StateEventDispatchers defs))"

definition add_bundle ::
  "CropCalendar option \<Rightarrow> TimedEventsDispatcher list option \<Rightarrow> StateEventsDispatcher list option
     \<Rightarrow> AgroManager \<Rightarrow> AgroManager" where
  "add_bundle cc te se am =
     am\<lparr>crop_calendars := crop_calendars am @ [cc],
        timed_event_dispatchers := timed_event_dispatchers am @ [te],
        state_event_dispatchers := state_event_dispatchers am @ [se]\<rparr>"

fun build_campaigns ::
  "(campaign \<times> date option \<times> date option) list \<Rightarrow> AgroManager \<Rightarrow> error + AgroManager" where
  "build_campaigns [] am = Inr am"
| "build_campaigns ((campaign, campaign_start, next_campaign) # rest) am =
     (case campaign_start of
        None \<Rightarrow> Inl (KeyError ''campaign[campaign_start]'')
      | Some cs \<Rightarrow>
          (case map_of campaign (DateKey cs) of
             None \<Rightarrow> Inl (KeyError ''campaign[campaign_start]'')
           | Some None \<Rightarrow> build_campaigns rest (add_bundle None None None am)
           | Some (Some cdef) \<Rightarrow>
               (case build_crop_calendar (CropCalendar_item cdef) cs next_campaign of
                  Inl e \<Rightarrow> Inl e
                | Inr cc \<Rightarrow>
                    (case build_timed_events (TimedEvents_item cdef) cs next_campaign of
                       Inl e \<Rightarrow> Inl e
                     | Inr te \<Rightarrow>
                         (case build_state_events (StateEvents_item cdef) of
                            Inl e \<Rightarrow> Inl e
                          | Inr se \<Rightarrow> build_campaigns rest (add_bundle cc te se am))))))"

definition AgroManager_initialize :: "campaign list \<Rightarrow> error + AgroManager" where
  "AgroManager_initialize agromanagement =
     (case check_campaigns agromanagement AgroManager_new of
        Inl e \<Rightarrow> Inl e
      | Inr am \<Rightarrow>
          (let am1 = am\<lparr>campaign_start_dates := campaign_start_dates am @ [None]\<rparr>
           in build_campaigns
                (zip agromanagement
                   (zip (butlast (campaign_start_dates am1)) (tl (campaign_start_dates am1))))
                am1))"

text \<open>
  The property \<^verbatim>\<open>end_date\<close>.  Every end date is collected first; the maximum of a
  list that holds \<^verbatim>\<open>None\<close> besides a date, and the maximum of \<^verbatim>\<open>None\<close> and
  \<^verbatim>\<open>date(1, 1, 1)\<close>, raise \<^verbatim>\<open>TypeError\<close>.
\<close>

fun dispatcher_end_dates :: "TimedEventsDispatcher list \<Rightarrow> error + date list" where
  "dispatcher_end_dates [] = Inr []"
| "dispatcher_end_dates (t # teds) =
     (case TimedEventsDispatcher_get_end_date t of
        Inl e \<Rightarrow> Inl e
      | Inr d \<Rightarrow>
          (case dispatcher_end_dates teds of
             Inl e \<Rightarrow> Inl e
           | Inr ds \<Rightarrow> Inr (d # ds)))"

fun collect_end_dates ::
  "(CropCalendar option \<times> TimedEventsDispatcher list option) list
     \<Rightarrow> error + (date option list \<times> date list)" where
  "collect_end_dates [] = Inr ([], [])"
| "collect_end_dates ((cc, teds) # rest) =
     (case (case cc of None \<Rightarrow> Inr [] | Some c \<Rightarrow> map_sum id (\<lambda>d. [d]) (CropCalendar_get_end_date c)) of
        Inl e \<Rightarrow> Inl e
      | Inr cd \<Rightarrow>
          (case (case teds of None \<Rightarrow> Inr [] | Some ts \<Rightarrow> dispatcher_end_dates ts) of
             Inl e \<Rightarrow> Inl e
           | Inr td \<Rightarrow>
               (case collect_end_dates rest of
                  Inl e \<Rightarrow> Inl e
                | Inr (cc_dates, te_dates) \<Rightarrow> Inr (cd @ cc_dates, td @ te_dates))))"

definition AgroManager_end_date :: "AgroManager \<Rightarrow> error + (date \<times> AgroManager)" where
  "AgroManager_end_date am =
     (case end_date am of
        Some d \<Rightarrow> Inr (d, am)
      | None \<Rightarrow>
          (case collect_end_dates (zip (crop_calendars am) (timed_event_dispatchers am)) of
             Inl e \<Rightarrow> Inl e
           | Inr (cc_dates, te_dates) \<Rightarrow>
               if cc_dates = [] \<and> te_dates = [] then Inl (PCSEError EmptyAgromanagement)
               else if None \<in> set cc_dates then Inl (TypeError ''max(max(cc_dates), end_date)'')
               else (let e0 = 0;
                         e1 = (if cc_dates \<noteq> [] then max_list e0 (map the cc_dates) else e0);
                         e2 = (if te_dates \<noteq> [] then max_list e1 te_dates else e1)
                     in Inr (e2, am\<lparr>end_date := Some e2\<rparr>))))"

text \<open>
  \<^verbatim>\<open>AgroManager.__call__\<close>: the switch to a new campaign, then the handlers of the
  bundle at the front.  A crop-finish signal sent by any of them also reaches the
  handler \<^verbatim>\<open>_on_CROP_FINISH\<close> of every calendar, which is connected to that signal.
\<close>

definition switch_campaign :: "AgroManager \<Rightarrow> error + AgroManager" where
  "switch_campaign am =
     (case crop_calendars am of
        [] \<Rightarrow> Inl (IndexError ''crop_calendars.pop(0)'')
      | cc # ccs \<Rightarrow>
          (case timed_event_dispatchers am of
             [] \<Rightarrow> Inl (IndexError ''timed_event_dispatchers.pop(0)'')
           | te # tes \<Rightarrow>
               (case state_event_dispatchers am of
                  [] \<Rightarrow> Inl (IndexError ''state_event_dispatchers.pop(0)'')
                | se # ses \<Rightarrow>
                    Inr (am\<lparr>icampaign := icampaign am + 1, crop_calendars := ccs,
                            timed_event_dispatchers := tes, state_event_dispatchers := ses\<rparr>))))"

fun call_state_dispatchers ::
  "kiosk \<Rightarrow> date \<Rightarrow> StateEventsDispatcher list \<Rightarrow> error + (StateEventsDispatcher list \<times> effect list)" where
  "call_state_dispatchers kiosk day [] = Inr ([], [])"
| "call_state_dispatchers kiosk day (ev_dsp # rest) =
     (case StateEventsDispatcher_call kiosk day ev_dsp of
        Inl e \<Rightarrow> Inl e
      | Inr (ev_dsp', out) \<Rightarrow>
          (case call_state_dispatchers kiosk day rest of
             Inl e \<Rightarrow> Inl e
           | Inr (rest', outs) \<Rightarrow> Inr (ev_dsp' # rest', out @ outs)))"

definition deliver_crop_finish :: "effect list \<Rightarrow> CropCalendar option list \<Rightarrow> CropCalendar option list" where
  "deliver_crop_finish out ccs =
     (if list_ex is_crop_finish out then map (map_option CropCalendar_on_CROP_FINISH) ccs else ccs)"

text \<open>The three statements of \<^verbatim>\<open>__call__\<close> that call the handlers of the front bundle.\<close>

definition call_crop_calendar ::
  "date \<Rightarrow> CropCalendar option \<Rightarrow> error + (CropCalendar option \<times> effect list)" where
  "call_crop_calendar day cc =
     (case cc of
        None \<Rightarrow> Inr (None, [])
      | Some c \<Rightarrow>
          (case CropCalendar_call day c of
             Inl e \<Rightarrow> Inl e
           | Inr (c', out) \<Rightarrow> Inr (Some c', out)))"

definition call_timed_events :: "date \<Rightarrow> TimedEventsDispatcher list option \<Rightarrow> effect list" where
  "call_timed_events day te =
     (case te of
        None \<Rightarrow> []
      | Some ds \<Rightarrow> concat (map (TimedEventsDispatcher_call day) ds))"

definition call_state_events ::
  "kiosk \<Rightarrow> date \<Rightarrow> StateEventsDispatcher list option
     \<Rightarrow> error + (StateEventsDispatcher list option \<times> effect list)" where
  "call_state_events kiosk day se =
     (case se of
        None \<Rightarrow> Inr (None, [])
      | Some ds \<Rightarrow>
          (case call_state_dispatchers kiosk day ds of
             Inl e \<Rightarrow> Inl e
           | Inr (ds', out) \<Rightarrow> Inr (Some ds', out)))"

definition call_handlers :: "kiosk \<Rightarrow> date \<Rightarrow> AgroManager \<Rightarrow> error + (AgroManager \<times> effect list)" where
  "call_handlers kiosk day am =
     (case crop_calendars am of
        [] \<Rightarrow> Inl (IndexError ''crop_calendars[0]'')
      | cc # ccs \<Rightarrow>
          (case call_crop_calendar day cc of
             Inl e \<Rightarrow> Inl e
           | Inr (cc', out1) \<Rightarrow>
               (case timed_event_dispatchers am of
                  [] \<Rightarrow> Inl (IndexError ''timed_event_dispatchers[0]'')
                | te # tes \<Rightarrow>
                    (case state_event_dispatchers am of
                       [] \<Rightarrow> Inl (IndexError ''state_event_dispatchers[0]'')
                     | se # ses \<Rightarrow>
                         (case call_state_events kiosk day se of
                            Inl e \<Rightarrow> Inl e
                          | Inr (se', out3) \<Rightarrow>
                              Inr (am\<lparr>crop_calendars :=
                                         deliver_crop_finish (out1 @ call_timed_events day te @ out3)
                                           (cc' # ccs),
                                      state_event_dispatchers := se' # ses\<rparr>,
                                   out1 @ call_timed_events day te @ out3))))))"

definition AgroManager_call :: "kiosk \<Rightarrow> date \<Rightarrow> AgroManager \<Rightarrow> error + (AgroManager \<times> effect list)" where
  "AgroManager_call kiosk day am =
     (if length (campaign_start_dates am) \<le> icampaign am + 1
      then Inl (IndexError ''campaign_start_dates[_icampaign+1]'')
      else if campaign_start_dates am ! (icampaign am + 1) = Some day
      then (case switch_campaign am of
              Inl e \<Rightarrow> Inl e
            | Inr am' \<Rightarrow> call_handlers kiosk day am')
      else call_handlers kiosk day am)"

text \<open>
  \<^verbatim>\<open>AgroManager._on_CROP_FINISH\<close>.  The module's \<^verbatim>\<open>signals\<close> has no attribute
  \<^verbatim>\<open>terminate\<close>, so reading it raises \<^verbatim>\<open>AttributeError\<close>.
\<close>

definition AgroManager_on_CROP_FINISH :: "AgroManager \<Rightarrow> error + effect list" where
  "AgroManager_on_CROP_FINISH am =
     (if crop_calendars am = []
      then (case getattr_signals ''terminate'' of
              Inl e \<Rightarrow> Inl e
            | Inr sig \<Rightarrow> Inr [Signal sig NoArgs])
      else Inr [])"

text \<open>
  What the driver may do with an initialized manager: advance it by a day, with the
  kiosk as the simulation left it, or have the bus deliver a crop-finish signal, which
  reaches the handlers of the manager and of its calendars.
\<close>

datatype driver_call = Advance kiosk date | CropFinished

fun AgroManager_run :: "AgroManager \<Rightarrow> driver_call list \<Rightarrow> error + (AgroManager \<times> effect list)" where
  "AgroManager_run am [] = Inr (am, [])"
| "AgroManager_run am (Advance kiosk day # calls) =
     (case AgroManager_call kiosk day am of
        Inl e \<Rightarrow> Inl e
      | Inr (am', out) \<Rightarrow>
          (case AgroManager_run am' calls of
             Inl e \<Rightarrow> Inl e
           | Inr (am'', outs) \<Rightarrow> Inr (am'', out @ outs)))"
| "AgroManager_run am (CropFinished # calls) =
     (case AgroManager_on_CROP_FINISH am of
        Inl e \<Rightarrow> Inl e
      | Inr out \<Rightarrow>
          (case AgroManager_run
                  (am\<lparr>crop_calendars := map (map_option CropCalendar_on_CROP_FINISH) (crop_calendars am)\<rparr>)
                  calls of
             Inl e \<Rightarrow> Inl e
           | Inr (am'', outs) \<Rightarrow> Inr (am'', out @ outs)))"

text \<open>
  The signal sent by \<^verbatim>\<open>AgroManager._on_CROP_FINISH\<close> is the only one sent without
  arguments.
\<close>

fun is_terminate :: "effect \<Rightarrow> bool" where
  "is_terminate (Signal s NoArgs) = True"
| "is_terminate (Signal s (CropStartArgs d c st et)) = False"
| "is_terminate (Signal s (CropFinishArgs d f b)) = False"
| "is_terminate (Signal s (KwArgs kw)) = False"
| "is_terminate (LogInfo m) = False"
| "is_terminate (LogWarning m) = False"

text \<open>
  The shape of a manager of \<open>n\<close> campaigns: the list of start dates ends with the
  sentinel, \<open>icampaign\<close> bundles have been dropped and fewer than \<open>n\<close> of them.
\<close>

definition manager_shape :: "nat \<Rightarrow> AgroManager \<Rightarrow> bool" where
  "manager_shape n am =
     (length (campaign_start_dates am) = n + 1
      \<and> campaign_start_dates am ! n = None
      \<and> icampaign am < n
      \<and> length (crop_calendars am) = n - icampaign am
      \<and> length (timed_event_dispatchers am) = n - icampaign am
      \<and> length (state_event_dispatchers am) = n - icampaign am)"

text \<open>
  What \<^verbatim>\<open>initialize\<close> has established for a dispatcher of timed events: its counter
  is that of its table, and no entry of the table is an empty dictionary.
\<close>

definition dispatcher_validated :: "TimedEventsDispatcher \<Rightarrow> bool" where
  "dispatcher_validated t =
     (days_with_events t = count_keys (te_events_table t) \<and> [] \<notin> set (te_events_table t))"

section \<open>Properties of CropCalendar\<close>

lemma finish_type_Some:
  "crop_end_date cc = Some e \<Longrightarrow>
   finish_type day cc =
     Inr (if duration cc \<ge> max_duration cc then Some ''max_duration''
          else if crop_end_type cc \<in> {harvest, earliest} \<and> day \<ge> e then Some ''harvest''
          else None)"
  by (simp add: finish_type_def)

lemma finish_type_maturity:
  "crop_end_type cc = maturity \<Longrightarrow>
   finish_type day cc = Inr (if duration cc \<ge> max_duration cc then Some ''max_duration'' else None)"
  by (simp add: finish_type_def)

lemma start_crop_fields:
  "crop_end_date (fst (start_crop day cc)) = crop_end_date cc"
  "crop_end_type (fst (start_crop day cc)) = crop_end_type cc"
  "max_duration (fst (start_crop day cc)) = max_duration cc"
  "crop_start_date (fst (start_crop day cc)) = crop_start_date cc"
  by (simp_all add: start_crop_def)

lemma count_duration_fields:
  "crop_end_date (count_duration cc) = crop_end_date cc"
  "crop_end_type (count_duration cc) = crop_end_type cc"
  "max_duration (count_duration cc) = max_duration cc"
  "crop_start_date (count_duration cc) = crop_start_date cc"
  "crop_id (count_duration cc) = crop_id cc"
  "crop_start_type (count_duration cc) = crop_start_type cc"
  by (simp_all add: count_duration_def)

text \<open>
  C3.  After the counter and the start of the cycle have been handled, the finish
  reason is \<open>''harvest''\<close> when the end type is harvest or earliest and the day has
  reached the end date, and it is then replaced by \<open>''max_duration''\<close> whenever the
  duration has reached \<open>max_duration\<close>.  So when both conditions hold on one tick the
  crop-finish signal of that tick carries \<open>''max_duration''\<close> and none carries
  \<open>''harvest''\<close>; and with \<open>max_duration = 0\<close> the tick of the start date sends the
  crop-start signal followed by a crop-finish signal with reason \<open>''max_duration''\<close>.
\<close>

theorem max_duration_overrides_harvest:
  "(crop_end_date cc = Some e \<longrightarrow>
      finish_type day cc =
        Inr (if duration cc \<ge> max_duration cc then Some ''max_duration''
             else if crop_end_type cc \<in> {harvest, earliest} \<and> day \<ge> e then Some ''harvest''
             else None))
   \<and> (crop_end_type cc \<in> {harvest, earliest} \<and> crop_end_date cc = Some e \<and> e \<le> day
        \<and> max_duration cc \<le> duration (fst (start_crop day (count_duration cc))) \<longrightarrow>
      (\<exists>cc' out. CropCalendar_call day cc = Inr (cc', out)
         \<and> \<not> in_crop_cycle cc'
         \<and> filter is_crop_finish out
             = [Signal ''CROP_FINISH'' (CropFinishArgs day ''max_duration'' True)]))
   \<and> (max_duration cc = 0 \<and> day = crop_start_date cc
        \<and> (crop_end_type cc = maturity \<or> crop_end_date cc \<noteq> None) \<longrightarrow>
      (\<exists>cc'. CropCalendar_call day cc =
         Inr (cc', [LogInfo (StartingCrop (crop_id cc) day),
                    Signal ''CROP_START'' (CropStartArgs day (crop_id cc) (crop_start_type cc) (crop_end_type cc)),
                    Signal ''CROP_FINISH'' (CropFinishArgs day ''max_duration'' True)])
         \<and> \<not> in_crop_cycle cc'))"
proof (intro conjI impI)
  assume "crop_end_date cc = Some e"
  then show "finish_type day cc =
        Inr (if duration cc \<ge> max_duration cc then Some ''max_duration''
             else if crop_end_type cc \<in> {harvest, earliest} \<and> day \<ge> e then Some ''harvest''
             else None)"
    by (rule finish_type_Some)
next
  assume a: "crop_end_type cc \<in> {harvest, earliest} \<and> crop_end_date cc = Some e \<and> e \<le> day
        \<and> max_duration cc \<le> duration (fst (start_crop day (count_duration cc)))"
  obtain cc1 out1 where s: "start_crop day (count_duration cc) = (cc1, out1)"
    by (cases "start_crop day (count_duration cc)")
  have e1: "crop_end_date cc1 = Some e" and m1: "max_duration cc1 = max_duration cc"
    using a start_crop_fields [of day "count_duration cc"] s by (simp_all add: count_duration_fields)
  from a s have d1: "max_duration cc \<le> duration cc1" by simp
  have ft: "finish_type day cc1 = Inr (Some ''max_duration'')"
    using finish_type_Some [OF e1, of day] d1 m1 by simp
  have nofin: "filter is_crop_finish out1 = []"
    using s by (auto simp: start_crop_def split: if_splits)
  show "\<exists>cc' out. CropCalendar_call day cc = Inr (cc', out)
         \<and> \<not> in_crop_cycle cc'
         \<and> filter is_crop_finish out
             = [Signal ''CROP_FINISH'' (CropFinishArgs day ''max_duration'' True)]"
    using s ft nofin by (simp add: CropCalendar_call_def CropCalendar_on_CROP_FINISH_def)
next
  assume a: "max_duration cc = 0 \<and> day = crop_start_date cc
        \<and> (crop_end_type cc = maturity \<or> crop_end_date cc \<noteq> None)"
  let ?cc1 = "(count_duration cc)\<lparr>duration := 0, in_crop_cycle := True\<rparr>"
  have s: "start_crop day (count_duration cc) =
      (?cc1, [LogInfo (StartingCrop (crop_id cc) day),
              Signal ''CROP_START'' (CropStartArgs day (crop_id cc) (crop_start_type cc) (crop_end_type cc))])"
    using a by (simp add: start_crop_def count_duration_fields)
  have ft: "finish_type day ?cc1 = Inr (Some ''max_duration'')"
  proof (cases "crop_end_type cc = maturity")
    case True
    then show ?thesis
      using a finish_type_maturity [of ?cc1 day] by (simp add: count_duration_fields)
  next
    case False
    with a obtain e' where "crop_end_date cc = Some e'" by auto
    then show ?thesis
      using a finish_type_Some [of ?cc1 e' day] by (simp add: count_duration_fields)
  qed
  show "\<exists>cc'. CropCalendar_call day cc =
         Inr (cc', [LogInfo (StartingCrop (crop_id cc) day),
                    Signal ''CROP_START'' (CropStartArgs day (crop_id cc) (crop_start_type cc) (crop_end_type cc)),
                    Signal ''CROP_FINISH'' (CropFinishArgs day ''max_duration'' True)])
         \<and> \<not> in_crop_cycle cc'"
    using s ft by (simp add: CropCalendar_call_def CropCalendar_on_CROP_FINISH_def)
qed

theorem max_duration_overrides_harvest_witness:
  "crop_end_date (CropCalendar_init ''wheat'' 5 sowing (Some 8) harvest 3\<lparr>duration := 2, in_crop_cycle := True\<rparr>) = Some 8
   \<and> max_duration (CropCalendar_init ''wheat'' 5 sowing (Some 8) harvest 3)
       \<le> duration (fst (start_crop 8 (count_duration
            (CropCalendar_init ''wheat'' 5 sowing (Some 8) harvest 3\<lparr>duration := 2, in_crop_cycle := True\<rparr>))))
   \<and> finish_type 8 (CropCalendar_init ''wheat'' 5 sowing (Some 8) harvest 3\<lparr>duration := 2, in_crop_cycle := True\<rparr>)
       = Inr (Some ''harvest'')
   \<and> (\<exists>cc' out.
         CropCalendar_call 8 (CropCalendar_init ''wheat'' 5 sowing (Some 8) harvest 3\<lparr>duration := 2, in_crop_cycle := True\<rparr>)
           = Inr (cc', out)
         \<and> filter is_crop_finish out = [Signal ''CROP_FINISH'' (CropFinishArgs 8 ''max_duration'' True)])
   \<and> (\<exists>cc'. CropCalendar_call 5 (CropCalendar_init ''wheat'' 5 sowing (Some 8) harvest 0) =
         Inr (cc', [LogInfo (StartingCrop ''wheat'' 5),
                    Signal ''CROP_START'' (CropStartArgs 5 ''wheat'' sowing harvest),
                    Signal ''CROP_FINISH'' (CropFinishArgs 5 ''max_duration'' True)]))"
  using max_duration_overrides_harvest
          [of "CropCalendar_init ''wheat'' 5 sowing (Some 8) harvest 3\<lparr>duration := 2, in_crop_cycle := True\<rparr>" 8 8]
        max_duration_overrides_harvest
          [of "CropCalendar_init ''wheat'' 5 sowing (Some 8) harvest 0" 8 5]
  by (auto simp add: CropCalendar_init_def start_crop_def count_duration_def)

text \<open>
  C1.  The end of the cycle is checked on every call, whether or not a cycle is
  active, and \<open>duration\<close> keeps its value once the cycle has ended.  A calendar
  starting on day 10 with end type maturity and a maximum duration of 2 days, called
  on the days 10 to 14, sends the crop-start signal on day 10 and the crop-finish
  signal on day 12, and again on day 13 and on day 14: three crop-finish signals for
  one activation.
\<close>

theorem crop_finish_sent_again_after_cycle:
  "CropCalendar_run (CropCalendar_init ''wheat'' 10 sowing None maturity 2) [10, 11, 12, 13, 14]
   = Inr (\<lparr>crop_id = ''wheat'', crop_start_date = 10, crop_start_type = sowing,
           crop_end_date = None, crop_end_type = maturity, max_duration = 2,
           duration = 2, in_crop_cycle = False\<rparr>,
          [LogInfo (StartingCrop ''wheat'' 10),
           Signal ''CROP_START'' (CropStartArgs 10 ''wheat'' sowing maturity),
           Signal ''CROP_FINISH'' (CropFinishArgs 12 ''max_duration'' True),
           Signal ''CROP_FINISH'' (CropFinishArgs 13 ''max_duration'' True),
           Signal ''CROP_FINISH'' (CropFinishArgs 14 ''max_duration'' True)])"
  by (simp add: CropCalendar_call_def CropCalendar_init_def start_crop_def count_duration_def
        finish_type_def CropCalendar_on_CROP_FINISH_def)

section \<open>Properties of counters\<close>

lemma map_of_counter_incr:
  "map_of (counter_incr k c) k' =
     (if k' = k then Some (case map_of c k of None \<Rightarrow> 1 | Some n \<Rightarrow> n + 1) else map_of c k')"
  by (induction c) auto

lemma counter_get_incr:
  "counter_get (counter_incr k c) k' = counter_get c k' + (if k' = k then 1 else 0)"
  by (simp add: counter_get_def map_of_counter_incr split: option.splits)

lemma counter_get_update:
  "counter_get (counter_update c ks) k = counter_get c k + count_list ks k"
  unfolding counter_update_def
  by (induction ks arbitrary: c) (auto simp: counter_get_incr)

lemma counter_get_fold_update:
  "counter_get (fold (\<lambda>ev c. counter_update c (map fst ev)) table c) k =
     counter_get c k + count_list (concat (map (map fst) table)) k"
  by (induction table arbitrary: c) (auto simp: counter_get_update)

lemma counter_get_count_keys:
  "counter_get (count_keys table) k = count_list (concat (map (map fst) table)) k"
  by (simp add: count_keys_def counter_get_fold_update) (simp add: counter_get_def)

lemma keys_counter_incr:
  "fst ` set (counter_incr k c) = insert k (fst ` set c)"
proof (induction c)
  case Nil
  then show ?case by simp
next
  case (Cons a c)
  obtain k' n where a: "a = (k', n)" by (cases a)
  show ?case
  proof (cases "k = k'")
    case True
    with a show ?thesis by simp
  next
    case False
    with a Cons.IH show ?thesis by (simp add: insert_commute)
  qed
qed

lemma distinct_counter_incr:
  "distinct (map fst c) \<Longrightarrow> distinct (map fst (counter_incr k c))"
proof (induction c)
  case Nil
  then show ?case by simp
next
  case (Cons a c)
  obtain k' n where a: "a = (k', n)" by (cases a)
  show ?case
  proof (cases "k = k'")
    case True
    with Cons.prems a show ?thesis by simp
  next
    case False
    with Cons a show ?thesis by (simp add: keys_counter_incr)
  qed
qed

lemma distinct_counter_update:
  "distinct (map fst c) \<Longrightarrow> distinct (map fst (counter_update c ks))"
  unfolding counter_update_def
  by (induction ks arbitrary: c) (auto simp: distinct_counter_incr)

lemma distinct_fold_update:
  "distinct (map fst c) \<Longrightarrow>
   distinct (map fst (fold (\<lambda>ev c. counter_update c (map fst ev)) table c))"
  by (induction table arbitrary: c) (auto simp: distinct_counter_update)

lemma distinct_count_keys: "distinct (map fst (count_keys table))"
  by (simp add: count_keys_def distinct_fold_update)

lemma keys_counter_update:
  "fst ` set (counter_update c ks) = fst ` set c \<union> set ks"
  unfolding counter_update_def
  by (induction ks arbitrary: c) (auto simp: keys_counter_incr)

lemma keys_fold_update:
  "fst ` set (fold (\<lambda>ev c. counter_update c (map fst ev)) table c) =
     fst ` set c \<union> (\<Union>ev \<in> set table. fst ` set ev)"
  by (induction table arbitrary: c) (auto simp: keys_counter_update)

lemma keys_count_keys: "fst ` set (count_keys table) = (\<Union>ev \<in> set table. fst ` set ev)"
  by (simp add: count_keys_def keys_fold_update)

lemma set_multi_keys:
  assumes "distinct (map fst c)"
  shows "set (multi_keys c) = {k. 1 < counter_get c k}"
proof -
  have "k \<in> set (multi_keys c) \<longleftrightarrow> 1 < counter_get c k" for k
  proof
    assume "k \<in> set (multi_keys c)"
    then obtain n where "(k, n) \<in> set c" "1 < n"
      by (auto simp: multi_keys_def)
    with assms have "map_of c k = Some n" by simp
    with \<open>1 < n\<close> show "1 < counter_get c k" by (simp add: counter_get_def)
  next
    assume "1 < counter_get c k"
    then obtain n where "map_of c k = Some n" "1 < n"
      by (auto simp: counter_get_def split: option.splits)
    then have "(k, n) \<in> set c" by (simp add: map_of_SomeD)
    with \<open>1 < n\<close> show "k \<in> set (multi_keys c)"
      by (force simp: multi_keys_def)
  qed
  then show ?thesis by blast
qed

lemma count_list_distinct:
  "distinct xs \<Longrightarrow> count_list xs x = (if x \<in> set xs then 1 else 0)"
  by (induction xs) auto

lemma count_list_keys:
  "\<forall>ev \<in> set table. wf_dict ev \<Longrightarrow>
   count_list (concat (map (map fst) table)) k = length (filter (\<lambda>ev. k \<in> fst ` set ev) table)"
  by (induction table) (auto simp: wf_dict_def count_list_distinct)

lemma multi_keys_count_keys:
  assumes "\<forall>ev \<in> set table. wf_dict ev"
  shows "set (multi_keys (count_keys table)) = {k. 2 \<le> length (filter (\<lambda>ev. k \<in> fst ` set ev) table)}"
  using assms
  by (auto simp: set_multi_keys distinct_count_keys counter_get_count_keys count_list_keys)

section \<open>Properties of TimedEventsDispatcher\<close>

text \<open>
  C7.  For a signal name that is an attribute of \<open>signals\<close> and a table of
  dictionaries, the constructor raises an error exactly when some day is a key of two
  or more entries of the table; the error is then the \<open>PCSEError\<close> whose message
  lists the days with more than one entry, and these are all the days that are a key
  of two or more entries.
\<close>

theorem TimedEventsDispatcher_init_duplicate_days:
  assumes "hasattr_signals event_signal"
    and "\<forall>ev \<in> set events_table. wf_dict ev"
  shows "((\<exists>e. TimedEventsDispatcher_init event_signal name comment events_table = Inl e)
           \<longleftrightarrow> (\<exists>d. 2 \<le> length (filter (\<lambda>ev. d \<in> fst ` set ev) events_table)))
       \<and> (\<forall>e. TimedEventsDispatcher_init event_signal name comment events_table = Inl e \<longrightarrow>
            (\<exists>days. e = PCSEError (MultiDays name days)
               \<and> set days = {d. 2 \<le> length (filter (\<lambda>ev. d \<in> fst ` set ev) events_table)}))"
proof -
  let ?D = "{d. 2 \<le> length (filter (\<lambda>ev. d \<in> fst ` set ev) events_table)}"
  let ?m = "multi_keys (count_keys events_table)"
  from assms(1) obtain sig where sig: "getattr_signals event_signal = Inr sig"
    by (auto simp: hasattr_signals_def getattr_signals_def)
  have m: "set ?m = ?D"
    using assms(2) by (rule multi_keys_count_keys)
  show ?thesis
  proof (cases "?m = []")
    case True
    with m have "?D = {}" by simp
    moreover have "\<exists>te. TimedEventsDispatcher_init event_signal name comment events_table = Inr te"
      using True sig assms(1) by (simp add: TimedEventsDispatcher_init_def Let_def)
    ultimately show ?thesis by auto
  next
    case False
    then have "set ?m \<noteq> {}" by simp
    with m have "?D \<noteq> {}" by simp
    moreover have "TimedEventsDispatcher_init event_signal name comment events_table
        = Inl (PCSEError (MultiDays name ?m))"
      using False sig assms(1) by (simp add: TimedEventsDispatcher_init_def Let_def)
    ultimately show ?thesis using m by auto
  qed
qed

theorem TimedEventsDispatcher_init_duplicate_days_witness:
  "hasattr_signals ''irrigate''
   \<and> list_all wf_dict [[(10::nat, [(''amount'', 3::int)])], [(12, [(''amount'', 2)])], [(10, [(''amount'', 1)])]]
   \<and> TimedEventsDispatcher_init ''irrigate'' ''irrigation'' ''no comment''
        [[(10, [(''amount'', 3)])], [(12, [(''amount'', 2)])], [(10, [(''amount'', 1)])]]
      = Inl (PCSEError (MultiDays ''irrigation'' [10]))
   \<and> (\<exists>d::nat. 2 \<le> length (filter (\<lambda>ev. d \<in> fst ` set ev)
        [[(10, [(''amount'', 3::int)])], [(12, [(''amount'', 2)])], [(10, [(''amount'', 1)])]]))"
proof -
  let ?t = "[[(10::nat, [(''amount'', 3::int)])], [(12, [(''amount'', 2)])], [(10, [(''amount'', 1)])]]"
  have h1: "hasattr_signals ''irrigate''"
    by (simp add: hasattr_signals_def TestSignals_def)
  have h2: "\<forall>ev \<in> set ?t. wf_dict ev"
    by (simp add: wf_dict_def)
  have e: "TimedEventsDispatcher_init ''irrigate'' ''irrigation'' ''no comment'' ?t
      = Inl (PCSEError (MultiDays ''irrigation'' [10]))"
    by (simp add: TimedEventsDispatcher_init_def hasattr_signals_def getattr_signals_def
          TestSignals_def count_keys_def counter_update_def multi_keys_def)
  from TimedEventsDispatcher_init_duplicate_days [OF h1 h2, of "''irrigation''" "''no comment''"] e
  have "\<exists>d. 2 \<le> length (filter (\<lambda>ev. d \<in> fst ` set ev) ?t)" by blast
  moreover have "list_all wf_dict ?t" by (simp add: wf_dict_def)
  ultimately show ?thesis using h1 e by blast
qed

section \<open>Properties of StateEventsDispatcher\<close>

lemma evaluate_state_rising:
  "zero_condition se = rising \<Longrightarrow>
   evaluate_state se cur t kw p =
     (cmp0 (cur - t),
      if p = Some (- 1) \<and> cmp0 (cur - t) \<in> {0, 1}
      then [LogInfo (StateEventDispatched (se_name se) cur), Signal (se_event_signal se) (KwArgs kw)]
      else [])"
  by (auto simp: evaluate_state_def zero_condition_rising_def Let_def split: option.splits)

lemma evaluate_events_rising:
  assumes "zero_condition se = rising"
    and "\<forall>z \<in> set zs. fst z \<noteq> []"
  shows "evaluate_events se cur zs =
     Inr (map (\<lambda>z. Some (cmp0 (cur - fst (hd (fst z))))) zs,
          concat (map (\<lambda>z. if snd z = Some (- 1) \<and> cmp0 (cur - fst (hd (fst z))) \<in> {0, 1}
                            then [LogInfo (StateEventDispatched (se_name se) cur),
                                  Signal (se_event_signal se) (KwArgs (snd (hd (fst z))))]
                            else []) zs))"
  using assms(2)
proof (induction zs)
  case Nil
  then show ?case by simp
next
  case (Cons z zs)
  obtain ev p where z: "z = (ev, p)" by (cases z)
  with Cons.prems obtain t kw more where ev: "ev = (t, kw) # more"
    by (cases ev) auto
  from Cons have ih: "evaluate_events se cur zs =
     Inr (map (\<lambda>z. Some (cmp0 (cur - fst (hd (fst z))))) zs,
          concat (map (\<lambda>z. if snd z = Some (- 1) \<and> cmp0 (cur - fst (hd (fst z))) \<in> {0, 1}
                            then [LogInfo (StateEventDispatched (se_name se) cur),
                                  Signal (se_event_signal se) (KwArgs (snd (hd (fst z))))]
                            else []) zs))"
    by simp
  show ?case
    by (simp add: z ev ih evaluate_state_rising [OF assms(1)])
qed

lemma StateEventsDispatcher_call_rising:
  assumes "zero_condition se = rising"
    and "\<forall>ev \<in> set (se_events_table se). ev \<noteq> []"
    and "kiosk (event_state se) = Some cur"
  shows "StateEventsDispatcher_call kiosk day se =
     Inr (se\<lparr>previous_signs :=
               map (\<lambda>z. Some (cmp0 (cur - fst (hd (fst z)))))
                 (zip (se_events_table se) (previous_signs se))\<rparr>,
          concat (map (\<lambda>z. if snd z = Some (- 1) \<and> cmp0 (cur - fst (hd (fst z))) \<in> {0, 1}
                            then [LogInfo (StateEventDispatched (se_name se) cur),
                                  Signal (se_event_signal se) (KwArgs (snd (hd (fst z))))]
                            else [])
                    (zip (se_events_table se) (previous_signs se))))"
proof -
  have "\<forall>z \<in> set (zip (se_events_table se) (previous_signs se)). fst z \<noteq> []"
    using assms(2) by (auto dest: set_zip_leftD)
  from evaluate_events_rising [OF assms(1) this, of cur] assms(3)
  show ?thesis by (simp add: StateEventsDispatcher_call_def)
qed

lemma map_zip_fst:
  "length ys = length xs \<Longrightarrow> map (\<lambda>z. f (fst z)) (zip xs ys) = map f xs"
  by (induction xs ys rule: list_induct2') auto

lemma length_filter_split:
  assumes "\<And>x. x \<in> set xs \<Longrightarrow> R x = (P x \<or> Q x)"
    and "\<And>x. x \<in> set xs \<Longrightarrow> \<not> (P x \<and> Q x)"
  shows "length (filter P xs) + length (filter Q xs) = length (filter R xs)"
  using assms by (induction xs) auto

lemma signals_of_tick:
  "length (filter is_signal
     (concat (map (\<lambda>z. if C z then [LogInfo (m z), Signal (s z) (a z)] else []) zs)))
   = length (filter C zs)"
  by (induction zs) auto

lemma sorted_le_last: "sorted (x # xs) \<Longrightarrow> x \<le> last (x # xs)"
  by (cases "xs = []") auto

lemma cmp0_neg: "cmp0 x = - 1 \<longleftrightarrow> x < 0"
  by (simp add: cmp0_def)

lemma cmp0_nonneg: "cmp0 x = 0 \<or> cmp0 x = 1 \<longleftrightarrow> 0 \<le> x"
  by (auto simp: cmp0_def)

text \<open>After an observation \<open>u\<close>, a rising dispatcher fires, along a non-decreasing
  series, once for every entry whose threshold lies above \<open>u\<close> and is reached.\<close>

lemma rising_run_sorted:
  assumes "zero_condition se = rising"
    and "\<forall>ev \<in> set (se_events_table se). ev \<noteq> []"
    and "previous_signs se = map (\<lambda>ev. Some (cmp0 (u - fst (hd ev)))) (se_events_table se)"
    and "\<forall>t \<in> set ticks. fst t (event_state se) \<noteq> None"
    and "sorted (u # map (\<lambda>t. the (fst t (event_state se))) ticks)"
  shows "\<exists>se' out. StateEventsDispatcher_run se ticks = Inr (se', out)
     \<and> length (filter is_signal out) =
         length (filter (\<lambda>ev. u < fst (hd ev)
                   \<and> fst (hd ev) \<le> last (u # map (\<lambda>t. the (fst t (event_state se))) ticks))
                 (se_events_table se))"
  using assms
proof (induction ticks arbitrary: se u)
  case Nil
  then show ?case by simp
next
  case (Cons tk ticks)
  obtain k d where tk: "tk = (k, d)" by (cases tk)
  from Cons.prems(4) tk obtain v where v: "k (event_state se) = Some v" by auto
  let ?tbl = "se_events_table se"
  let ?se1 = "se\<lparr>previous_signs := map (\<lambda>ev. Some (cmp0 (v - fst (hd ev)))) ?tbl\<rparr>"
  let ?C = "\<lambda>z. snd z = Some (- 1) \<and> cmp0 (v - fst (hd (fst z))) \<in> {0, 1}"
  let ?out1 = "concat (map (\<lambda>z. if ?C z
                            then [LogInfo (StateEventDispatched (se_name se) v),
                                  Signal (se_event_signal se) (KwArgs (snd (hd (fst z))))]
                            else [])
                    (zip ?tbl (previous_signs se)))"
  have len: "length (previous_signs se) = length ?tbl"
    using Cons.prems(3) by simp
  have mz: "map (\<lambda>z. Some (cmp0 (v - fst (hd (fst z))))) (zip ?tbl (previous_signs se))
      = map (\<lambda>ev. Some (cmp0 (v - fst (hd ev)))) ?tbl"
    by (rule map_zip_fst [OF len, of "\<lambda>ev. Some (cmp0 (v - fst (hd ev)))"])
  have call: "StateEventsDispatcher_call k d se = Inr (?se1, ?out1)"
    using StateEventsDispatcher_call_rising
            [where se = se and kiosk = k and cur = v and day = d, OF Cons.prems(1) Cons.prems(2) v]
    unfolding mz by simp
  have zip_eq: "zip ?tbl (previous_signs se) = map (\<lambda>ev. (ev, Some (cmp0 (u - fst (hd ev))))) ?tbl"
    using Cons.prems(3) by (simp add: zip_map2 zip_same_conv_map)
  have n1: "length (filter is_signal ?out1) = length (filter (\<lambda>ev. u < fst (hd ev) \<and> fst (hd ev) \<le> v) ?tbl)"
  proof -
    have "length (filter is_signal ?out1) = length (filter ?C (zip ?tbl (previous_signs se)))"
      by (rule signals_of_tick)
    also have "\<dots> = length (filter (\<lambda>ev. ?C (ev, Some (cmp0 (u - fst (hd ev))))) ?tbl)"
      by (simp add: zip_eq filter_map comp_def)
    also have "\<dots> = length (filter (\<lambda>ev. u < fst (hd ev) \<and> fst (hd ev) \<le> v) ?tbl)"
      by (simp add: cmp0_neg cmp0_nonneg)
    finally show ?thesis .
  qed
  let ?vs = "map (\<lambda>t. the (fst t (event_state se))) ticks"
  have uv: "u \<le> v" and sorted': "sorted (v # ?vs)"
    using Cons.prems(5) tk v by simp_all
  have "\<exists>se' out. StateEventsDispatcher_run ?se1 ticks = Inr (se', out)
     \<and> length (filter is_signal out) =
         length (filter (\<lambda>ev. v < fst (hd ev)
                   \<and> fst (hd ev) \<le> last (v # map (\<lambda>t. the (fst t (event_state ?se1))) ticks))
                 (se_events_table ?se1))"
  proof (rule Cons.IH)
    show "zero_condition ?se1 = rising" using Cons.prems(1) by simp
    show "\<forall>ev \<in> set (se_events_table ?se1). ev \<noteq> []" using Cons.prems(2) by simp
    show "previous_signs ?se1 = map (\<lambda>ev. Some (cmp0 (v - fst (hd ev)))) (se_events_table ?se1)"
      by simp
    show "\<forall>t \<in> set ticks. fst t (event_state ?se1) \<noteq> None" using Cons.prems(4) by simp
    show "sorted (v # map (\<lambda>t. the (fst t (event_state ?se1))) ticks)" using sorted' by simp
  qed
  then obtain se' out where run: "StateEventsDispatcher_run ?se1 ticks = Inr (se', out)"
    and n2: "length (filter is_signal out) =
         length (filter (\<lambda>ev. v < fst (hd ev) \<and> fst (hd ev) \<le> last (v # ?vs)) ?tbl)"
    by auto
  have vl: "v \<le> last (v # ?vs)"
    using sorted' by (rule sorted_le_last)
  have "length (filter (\<lambda>ev. u < fst (hd ev) \<and> fst (hd ev) \<le> v) ?tbl)
      + length (filter (\<lambda>ev. v < fst (hd ev) \<and> fst (hd ev) \<le> last (v # ?vs)) ?tbl)
      = length (filter (\<lambda>ev. u < fst (hd ev) \<and> fst (hd ev) \<le> last (v # ?vs)) ?tbl)"
    using uv vl by (intro length_filter_split) auto
  with n1 n2 have cnt: "length (filter is_signal (?out1 @ out)) =
      length (filter (\<lambda>ev. u < fst (hd ev) \<and> fst (hd ev) \<le> last (v # ?vs)) ?tbl)"
    by simp
  have runall: "StateEventsDispatcher_run se (tk # ticks) = Inr (se', ?out1 @ out)"
    using call run tk by simp
  have l: "last (u # map (\<lambda>t. the (fst t (event_state se))) (tk # ticks)) = last (v # ?vs)"
    using tk v by simp
  show ?case
  proof (intro exI conjI)
    show "StateEventsDispatcher_run se (tk # ticks) = Inr (se', ?out1 @ out)"
      by (rule runall)
    show "length (filter is_signal (?out1 @ out)) =
         length (filter (\<lambda>ev. u < fst (hd ev)
                   \<and> fst (hd ev) \<le> last (u # map (\<lambda>t. the (fst t (event_state se))) (tk # ticks)))
                 (se_events_table se))"
      unfolding l by (rule cnt)
  qed
qed

text \<open>A rising dispatcher never fires along a series that, for every entry, stays
  below the threshold or stays at or above it.\<close>

lemma rising_run_no_crossing:
  assumes "zero_condition se = rising"
    and "\<forall>ev \<in> set (se_events_table se). ev \<noteq> []"
    and "length (previous_signs se) = length (se_events_table se)"
    and "\<forall>t \<in> set ticks. fst t (event_state se) \<noteq> None"
    and "\<forall>z \<in> set (zip (se_events_table se) (previous_signs se)).
           snd z = Some (- 1) \<longrightarrow>
           (\<forall>t \<in> set ticks. the (fst t (event_state se)) < fst (hd (fst z)))"
    and "\<forall>ev \<in> set (se_events_table se).
           (\<forall>t \<in> set ticks. fst (hd ev) \<le> the (fst t (event_state se)))
           \<or> (\<forall>t \<in> set ticks. the (fst t (event_state se)) < fst (hd ev))"
  shows "\<exists>se' out. StateEventsDispatcher_run se ticks = Inr (se', out) \<and> filter is_signal out = []"
  using assms
proof (induction ticks arbitrary: se)
  case Nil
  then show ?case by simp
next
  case (Cons tk ticks)
  obtain k d where tk: "tk = (k, d)" by (cases tk)
  from Cons.prems(4) tk obtain v where v: "k (event_state se) = Some v" by auto
  let ?tbl = "se_events_table se"
  let ?se1 = "se\<lparr>previous_signs := map (\<lambda>ev. Some (cmp0 (v - fst (hd ev)))) ?tbl\<rparr>"
  let ?C = "\<lambda>z. snd z = Some (- 1) \<and> cmp0 (v - fst (hd (fst z))) \<in> {0, 1}"
  let ?out1 = "concat (map (\<lambda>z. if ?C z
                            then [LogInfo (StateEventDispatched (se_name se) v),
                                  Signal (se_event_signal se) (KwArgs (snd (hd (fst z))))]
                            else [])
                    (zip ?tbl (previous_signs se)))"
  have mz: "map (\<lambda>z. Some (cmp0 (v - fst (hd (fst z))))) (zip ?tbl (previous_signs se))
      = map (\<lambda>ev. Some (cmp0 (v - fst (hd ev)))) ?tbl"
    by (rule map_zip_fst [OF Cons.prems(3), of "\<lambda>ev. Some (cmp0 (v - fst (hd ev)))"])
  have call: "StateEventsDispatcher_call k d se = Inr (?se1, ?out1)"
    using StateEventsDispatcher_call_rising
            [where se = se and kiosk = k and cur = v and day = d, OF Cons.prems(1) Cons.prems(2) v]
    unfolding mz by simp
  have noC: "\<not> ?C z" if "z \<in> set (zip ?tbl (previous_signs se))" for z
  proof
    assume c: "?C z"
    with Cons.prems(5) that tk v have "v < fst (hd (fst z))" by fastforce
    then have "cmp0 (v - fst (hd (fst z))) = - 1" by (simp add: cmp0_def)
    with c show False by simp
  qed
  have "length (filter is_signal ?out1) = length (filter ?C (zip ?tbl (previous_signs se)))"
    by (rule signals_of_tick)
  also have "filter ?C (zip ?tbl (previous_signs se)) = []"
    using noC by (simp only: filter_empty_conv) blast
  finally have n1: "filter is_signal ?out1 = []" by simp
  have "\<exists>se' out. StateEventsDispatcher_run ?se1 ticks = Inr (se', out) \<and> filter is_signal out = []"
  proof (rule Cons.IH)
    show "zero_condition ?se1 = rising" using Cons.prems(1) by simp
    show "\<forall>ev \<in> set (se_events_table ?se1). ev \<noteq> []" using Cons.prems(2) by simp
    show "length (previous_signs ?se1) = length (se_events_table ?se1)" by simp
    show "\<forall>t \<in> set ticks. fst t (event_state ?se1) \<noteq> None" using Cons.prems(4) by simp
    show "\<forall>ev \<in> set (se_events_table ?se1).
           (\<forall>t \<in> set ticks. fst (hd ev) \<le> the (fst t (event_state ?se1)))
           \<or> (\<forall>t \<in> set ticks. the (fst t (event_state ?se1)) < fst (hd ev))"
      using Cons.prems(6) by auto
    show "\<forall>z \<in> set (zip (se_events_table ?se1) (previous_signs ?se1)).
           snd z = Some (- 1) \<longrightarrow>
           (\<forall>t \<in> set ticks. the (fst t (event_state ?se1)) < fst (hd (fst z)))"
    proof (intro ballI impI)
      fix z t
      assume z: "z \<in> set (zip (se_events_table ?se1) (previous_signs ?se1))"
        and s: "snd z = Some (- 1)" and t: "t \<in> set ticks"
      from z have ev: "fst z \<in> set ?tbl" and sz: "snd z = Some (cmp0 (v - fst (hd (fst z))))"
        by (auto simp: zip_map2 zip_same_conv_map)
      from s sz have "v < fst (hd (fst z))"
        by (simp add: cmp0_def split: if_splits)
      then have "\<not> (\<forall>t \<in> set (tk # ticks). fst (hd (fst z)) \<le> the (fst t (event_state se)))"
        using tk v by auto
      with Cons.prems(6) ev
      have "\<forall>t \<in> set (tk # ticks). the (fst t (event_state se)) < fst (hd (fst z))" by blast
      with t show "the (fst t (event_state ?se1)) < fst (hd (fst z))" by simp
    qed
  qed
  then obtain se' out where run: "StateEventsDispatcher_run ?se1 ticks = Inr (se', out)"
    and n2: "filter is_signal out = []"
    by auto
  have "StateEventsDispatcher_run se (tk # ticks) = Inr (se', ?out1 @ out)"
    using call run tk by simp
  moreover have "filter is_signal (?out1 @ out) = []"
    using n1 n2 by simp
  ultimately show ?case by blast
qed

text \<open>
  C5.  For a dispatcher with zero condition rising whose entries are not empty
  dictionaries: a call with the watched variable in the kiosk stores, for every entry,
  the sign of the current value minus the threshold as the previous sign, whether or
  not the entry fired, and sends the signal with the payload of exactly those entries
  whose previous sign was \<open>-1\<close> and whose new sign is \<open>0\<close> or \<open>1\<close>; on the first
  observation, when no previous sign is set, nothing is sent.  Hence, starting with no
  previous sign, along a non-decreasing series of observations the signal is sent once
  for every entry whose threshold lies above the first value and at or below the last
  one, and along a series that stays below the threshold, or at or above it, for every
  entry, no signal is sent.
\<close>

theorem rising_dispatcher_zero_crossing:
  assumes "zero_condition se = rising"
    and "\<forall>ev \<in> set (se_events_table se). ev \<noteq> []"
    and "length (previous_signs se) = length (se_events_table se)"
  shows "(kiosk (event_state se) = Some cur \<longrightarrow>
           StateEventsDispatcher_call kiosk day se =
             Inr (se\<lparr>previous_signs := map (\<lambda>ev. Some (cmp0 (cur - fst (hd ev)))) (se_events_table se)\<rparr>,
                  concat (map (\<lambda>(ev, p). if p = Some (- 1) \<and> cmp0 (cur - fst (hd ev)) \<in> {0, 1}
                                          then [LogInfo (StateEventDispatched (se_name se) cur),
                                                Signal (se_event_signal se) (KwArgs (snd (hd ev)))]
                                          else [])
                            (zip (se_events_table se) (previous_signs se)))))
       \<and> (kiosk (event_state se) = Some cur \<and> set (previous_signs se) \<subseteq> {None} \<longrightarrow>
           StateEventsDispatcher_call kiosk day se =
             Inr (se\<lparr>previous_signs := map (\<lambda>ev. Some (cmp0 (cur - fst (hd ev)))) (se_events_table se)\<rparr>,
                  []))
       \<and> (set (previous_signs se) \<subseteq> {None} \<and> ticks \<noteq> []
            \<and> (\<forall>t \<in> set ticks. fst t (event_state se) \<noteq> None)
            \<and> sorted (map (\<lambda>t. the (fst t (event_state se))) ticks) \<longrightarrow>
           (\<exists>se' out. StateEventsDispatcher_run se ticks = Inr (se', out)
              \<and> length (filter is_signal out) =
                  length (filter (\<lambda>ev. the (fst (hd ticks) (event_state se)) < fst (hd ev)
                                      \<and> fst (hd ev) \<le> the (fst (last ticks) (event_state se)))
                            (se_events_table se))))
       \<and> (set (previous_signs se) \<subseteq> {None}
            \<and> (\<forall>t \<in> set ticks. fst t (event_state se) \<noteq> None)
            \<and> (\<forall>ev \<in> set (se_events_table se).
                  (\<forall>t \<in> set ticks. fst (hd ev) \<le> the (fst t (event_state se)))
                  \<or> (\<forall>t \<in> set ticks. the (fst t (event_state se)) < fst (hd ev))) \<longrightarrow>
           (\<exists>se' out. StateEventsDispatcher_run se ticks = Inr (se', out) \<and> filter is_signal out = []))"
proof -
  let ?tbl = "se_events_table se"
  let ?val = "\<lambda>t. the (fst t (event_state se))"
  have mz: "map (\<lambda>z. Some (cmp0 (c - fst (hd (fst z))))) (zip ?tbl (previous_signs se))
      = map (\<lambda>ev. Some (cmp0 (c - fst (hd ev)))) ?tbl" for c
    by (rule map_zip_fst [OF assms(3), of "\<lambda>ev. Some (cmp0 (c - fst (hd ev)))"])
  have A: "StateEventsDispatcher_call k d se =
             Inr (se\<lparr>previous_signs := map (\<lambda>ev. Some (cmp0 (c - fst (hd ev)))) ?tbl\<rparr>,
                  concat (map (\<lambda>(ev, p). if p = Some (- 1) \<and> cmp0 (c - fst (hd ev)) \<in> {0, 1}
                                          then [LogInfo (StateEventDispatched (se_name se) c),
                                                Signal (se_event_signal se) (KwArgs (snd (hd ev)))]
                                          else [])
                            (zip ?tbl (previous_signs se))))"
    if "k (event_state se) = Some c" for k d c
    using StateEventsDispatcher_call_rising
            [where se = se and kiosk = k and cur = c and day = d, OF assms(1) assms(2) that]
    unfolding mz by (simp add: case_prod_unfold)
  have A0: "StateEventsDispatcher_call k d se =
             Inr (se\<lparr>previous_signs := map (\<lambda>ev. Some (cmp0 (c - fst (hd ev)))) ?tbl\<rparr>, [])"
    if k: "k (event_state se) = Some c" and n: "set (previous_signs se) \<subseteq> {None}" for k d c
  proof -
    have "snd z = None" if "z \<in> set (zip ?tbl (previous_signs se))" for z
    proof -
      obtain a b where z: "z = (a, b)" by (cases z)
      with that have "b \<in> set (previous_signs se)" by (auto dest: set_zip_rightD)
      with n z show ?thesis by auto
    qed
    then have "concat (map (\<lambda>(ev, p). if p = Some (- 1) \<and> cmp0 (c - fst (hd ev)) \<in> {0, 1}
                                          then [LogInfo (StateEventDispatched (se_name se) c),
                                                Signal (se_event_signal se) (KwArgs (snd (hd ev)))]
                                          else [])
                            (zip ?tbl (previous_signs se))) = []"
      by (auto simp: case_prod_unfold)
    with A [of k c d, OF k] show ?thesis by simp
  qed
  have B: "\<exists>se' out. StateEventsDispatcher_run se ticks = Inr (se', out)
              \<and> length (filter is_signal out) =
                  length (filter (\<lambda>ev. ?val (hd ticks) < fst (hd ev) \<and> fst (hd ev) \<le> ?val (last ticks)) ?tbl)"
    if n: "set (previous_signs se) \<subseteq> {None}" and ne: "ticks \<noteq> []"
      and pr: "\<forall>t \<in> set ticks. fst t (event_state se) \<noteq> None"
      and so: "sorted (map ?val ticks)"
  proof -
    from ne obtain k d rest where ticks: "ticks = (k, d) # rest" by (cases ticks) auto
    with pr obtain v where v: "k (event_state se) = Some v" by auto
    let ?se1 = "se\<lparr>previous_signs := map (\<lambda>ev. Some (cmp0 (v - fst (hd ev)))) ?tbl\<rparr>"
    have call: "StateEventsDispatcher_call k d se = Inr (?se1, [])"
      using A0 [of k v d, OF v n] .
    have "\<exists>se' out. StateEventsDispatcher_run ?se1 rest = Inr (se', out)
       \<and> length (filter is_signal out) =
           length (filter (\<lambda>ev. v < fst (hd ev)
                     \<and> fst (hd ev) \<le> last (v # map (\<lambda>t. the (fst t (event_state ?se1))) rest))
                   (se_events_table ?se1))"
    proof (rule rising_run_sorted)
      show "zero_condition ?se1 = rising" using assms(1) by simp
      show "\<forall>ev \<in> set (se_events_table ?se1). ev \<noteq> []" using assms(2) by simp
      show "previous_signs ?se1 = map (\<lambda>ev. Some (cmp0 (v - fst (hd ev)))) (se_events_table ?se1)"
        by simp
      show "\<forall>t \<in> set rest. fst t (event_state ?se1) \<noteq> None" using pr ticks by simp
      show "sorted (v # map (\<lambda>t. the (fst t (event_state ?se1))) rest)"
        using so ticks v by simp
    qed
    then obtain se' out where run: "StateEventsDispatcher_run ?se1 rest = Inr (se', out)"
      and cnt: "length (filter is_signal out) =
           length (filter (\<lambda>ev. v < fst (hd ev) \<and> fst (hd ev) \<le> last (v # map ?val rest)) ?tbl)"
      by auto
    have l: "?val (last ticks) = last (v # map ?val rest)"
      using ticks v by (simp add: last_map)
    have h: "?val (hd ticks) = v" using ticks v by simp
    have "StateEventsDispatcher_run se ticks = Inr (se', out)"
      using call run ticks by simp
    with cnt show ?thesis unfolding l h by blast
  qed
  have C: "\<exists>se' out. StateEventsDispatcher_run se ticks = Inr (se', out) \<and> filter is_signal out = []"
    if n: "set (previous_signs se) \<subseteq> {None}"
      and pr: "\<forall>t \<in> set ticks. fst t (event_state se) \<noteq> None"
      and nc: "\<forall>ev \<in> set ?tbl. (\<forall>t \<in> set ticks. fst (hd ev) \<le> ?val t) \<or> (\<forall>t \<in> set ticks. ?val t < fst (hd ev))"
  proof (rule rising_run_no_crossing [OF assms(1) assms(2) assms(3) pr _ nc])
    show "\<forall>z \<in> set (zip ?tbl (previous_signs se)).
           snd z = Some (- 1) \<longrightarrow> (\<forall>t \<in> set ticks. ?val t < fst (hd (fst z)))"
      using n by (auto dest!: set_zip_rightD)
  qed
  show ?thesis
    using A A0 B C by blast
qed

theorem rising_dispatcher_zero_crossing_witness:
  "zero_condition
     \<lparr>se_event_signal = ''IRRIGATE'', event_state = ''SM'', zero_condition = rising,
      se_events_table = [[(0.5, [(''amount'', 2)])]], se_name = ''irrigation'',
      se_comment = ''no comment'', previous_signs = [None], states_with_events = [(0.5, 1)]\<rparr> = rising
   \<and> sorted (map (\<lambda>t. the (fst t ''SM''))
        [([''SM'' \<mapsto> 0.2::real], 1::nat), ([''SM'' \<mapsto> 0.4], 2), ([''SM'' \<mapsto> 0.6], 3), ([''SM'' \<mapsto> 0.9], 4)])
   \<and> (\<exists>se' out.
         StateEventsDispatcher_run
           \<lparr>se_event_signal = ''IRRIGATE'', event_state = ''SM'', zero_condition = rising,
            se_events_table = [[(0.5, [(''amount'', 2)])]], se_name = ''irrigation'',
            se_comment = ''no comment'', previous_signs = [None], states_with_events = [(0.5, 1)]\<rparr>
           [([''SM'' \<mapsto> 0.2], 1), ([''SM'' \<mapsto> 0.4], 2), ([''SM'' \<mapsto> 0.6], 3), ([''SM'' \<mapsto> 0.9], 4)]
           = Inr (se', out)
         \<and> length (filter is_signal out) = 1)"
proof -
  let ?se = "\<lparr>se_event_signal = ''IRRIGATE'', event_state = ''SM'', zero_condition = rising,
      se_events_table = [[(0.5::real, [(''amount'', 2::int)])]], se_name = ''irrigation'',
      se_comment = ''no comment'', previous_signs = [None], states_with_events = [(0.5, 1)]\<rparr>"
  let ?ticks = "[([''SM'' \<mapsto> 0.2::real], 1::nat), ([''SM'' \<mapsto> 0.4], 2), ([''SM'' \<mapsto> 0.6], 3),
      ([''SM'' \<mapsto> 0.9], 4)]"
  have h1: "zero_condition ?se = rising" by simp
  have h2: "\<forall>ev \<in> set (se_events_table ?se). ev \<noteq> []" by simp
  have h3: "length (previous_signs ?se) = length (se_events_table ?se)" by simp
  have s: "sorted (map (\<lambda>t. the (fst t ''SM'')) ?ticks)" by simp
  have h4: "set (previous_signs ?se) \<subseteq> {None} \<and> ?ticks \<noteq> []
            \<and> (\<forall>t \<in> set ?ticks. fst t (event_state ?se) \<noteq> None)
            \<and> sorted (map (\<lambda>t. the (fst t (event_state ?se))) ?ticks)"
    by (simp del: not_None_eq)
  from rising_dispatcher_zero_crossing [OF h1 h2 h3, where ticks = ?ticks] h4
  have "\<exists>se' out. StateEventsDispatcher_run ?se ?ticks = Inr (se', out)
              \<and> length (filter is_signal out) =
                  length (filter (\<lambda>ev. the (fst (hd ?ticks) (event_state ?se)) < fst (hd ev)
                                      \<and> fst (hd ev) \<le> the (fst (last ?ticks) (event_state ?se)))
                            (se_events_table ?se))"
    by blast
  then have "\<exists>se' out. StateEventsDispatcher_run ?se ?ticks = Inr (se', out)
              \<and> length (filter is_signal out) = 1"
    by simp
  with h1 s show ?thesis by blast
qed

text \<open>
  C9.  When the watched variable is not in the kiosk, the call returns normally: it
  hands one warning to the logger, sends no signal, and returns the dispatcher as it
  was, so every previous sign is unchanged.
\<close>

theorem absent_state_variable_skips_tick:
  "kiosk (event_state se) = None \<Longrightarrow>
   StateEventsDispatcher_call kiosk day se = Inr (se, [LogWarning (StateNotAvailable (event_state se))])"
  by (simp add: StateEventsDispatcher_call_def)

theorem absent_state_variable_skips_tick_witness:
  "[''SM'' \<mapsto> (0.3::real)] ''DVS'' = None
   \<and> (\<forall>zc tbl signs. StateEventsDispatcher_call [''SM'' \<mapsto> 0.3] 7
        \<lparr>se_event_signal = ''IRRIGATE'', event_state = ''DVS'', zero_condition = zc,
         se_events_table = tbl, se_name = ''irrigation'', se_comment = ''no comment'',
         previous_signs = signs, states_with_events = []\<rparr>
      = Inr (\<lparr>se_event_signal = ''IRRIGATE'', event_state = ''DVS'', zero_condition = zc,
              se_events_table = tbl, se_name = ''irrigation'', se_comment = ''no comment'',
              previous_signs = signs, states_with_events = []\<rparr>,
             [LogWarning (StateNotAvailable ''DVS'')]))"
proof -
  have h: "[''SM'' \<mapsto> (0.3::real)] ''DVS'' = None" by simp
  show ?thesis
    using h absent_state_variable_skips_tick [where kiosk = "[''SM'' \<mapsto> 0.3]" and day = 7]
    by simp
qed

section \<open>Properties of AgroManager\<close>

lemma check_campaign_date_fields:
  "AgroManager_check_campaign_date k am = Inr am' \<Longrightarrow>
   campaign_start_dates am' = campaign_start_dates am
   \<and> crop_calendars am' = crop_calendars am
   \<and> timed_event_dispatchers am' = timed_event_dispatchers am
   \<and> state_event_dispatchers am' = state_event_dispatchers am
   \<and> icampaign am' = icampaign am
   \<and> end_date am' = end_date am"
  by (auto simp: AgroManager_check_campaign_date_def split: option.splits if_splits)

lemma check_campaigns_fields:
  "check_campaigns cs am = Inr am' \<Longrightarrow>
   length (campaign_start_dates am') = length (campaign_start_dates am) + length cs
   \<and> crop_calendars am' = crop_calendars am
   \<and> timed_event_dispatchers am' = timed_event_dispatchers am
   \<and> state_event_dispatchers am' = state_event_dispatchers am
   \<and> icampaign am' = icampaign am
   \<and> end_date am' = end_date am"
proof (induction cs arbitrary: am)
  case Nil
  then show ?case by simp
next
  case (Cons c cs)
  from Cons.prems obtain k body more am1 d where
    c: "c = (k, body) # more"
    and chk: "AgroManager_check_campaign_date k am = Inr am1"
    and d: "as_date k = Some d"
    and rest: "check_campaigns cs (am1\<lparr>campaign_start_dates := campaign_start_dates am1 @ [Some d]\<rparr>) = Inr am'"
    by (auto split: list.splits sum.splits option.splits)
  from Cons.IH [OF rest] check_campaign_date_fields [OF chk]
  show ?case by simp
qed

lemma build_campaigns_fields:
  "build_campaigns zs am = Inr am' \<Longrightarrow>
   length (crop_calendars am') = length (crop_calendars am) + length zs
   \<and> length (timed_event_dispatchers am') = length (timed_event_dispatchers am) + length zs
   \<and> length (state_event_dispatchers am') = length (state_event_dispatchers am) + length zs
   \<and> campaign_start_dates am' = campaign_start_dates am
   \<and> icampaign am' = icampaign am
   \<and> end_date am' = end_date am"
proof (induction zs arbitrary: am)
  case Nil
  then show ?case by simp
next
  case (Cons z zs)
  from Cons.prems obtain cc te se where
    rest: "build_campaigns zs (add_bundle cc te se am) = Inr am'"
    by (cases z) (auto split: option.splits sum.splits)
  from Cons.IH [OF rest] show ?case by (simp add: add_bundle_def)
qed

lemma initialize_shape:
  assumes "AgroManager_initialize agromanagement = Inr am"
  shows "length (campaign_start_dates am) = length agromanagement + 1
     \<and> campaign_start_dates am ! length agromanagement = None
     \<and> icampaign am = 0
     \<and> end_date am = None
     \<and> length (crop_calendars am) = length agromanagement
     \<and> length (timed_event_dispatchers am) = length agromanagement
     \<and> length (state_event_dispatchers am) = length agromanagement"
proof -
  from assms obtain am1 where
    chk: "check_campaigns agromanagement AgroManager_new = Inr am1"
    and bld: "build_campaigns
        (zip agromanagement
           (zip (butlast (campaign_start_dates am1 @ [None])) (tl (campaign_start_dates am1 @ [None]))))
        (am1\<lparr>campaign_start_dates := campaign_start_dates am1 @ [None]\<rparr>) = Inr am"
    by (auto simp: AgroManager_initialize_def Let_def split: sum.splits)
  from check_campaigns_fields [OF chk]
  have f1: "length (campaign_start_dates am1) = length agromanagement"
    and g1: "crop_calendars am1 = []" "timed_event_dispatchers am1 = []"
      "state_event_dispatchers am1 = []" "icampaign am1 = 0" "end_date am1 = None"
    by (simp_all add: AgroManager_new_def)
  have lz: "length (zip agromanagement
           (zip (butlast (campaign_start_dates am1 @ [None])) (tl (campaign_start_dates am1 @ [None]))))
      = length agromanagement"
    using f1 by simp
  from build_campaigns_fields [OF bld] f1 g1 lz
  show ?thesis by (simp add: nth_append)
qed

lemma initialize_manager_shape:
  "AgroManager_initialize agromanagement = Inr am \<Longrightarrow> agromanagement \<noteq> [] \<Longrightarrow>
   manager_shape (length agromanagement) am"
  using initialize_shape [of agromanagement am] by (simp add: manager_shape_def)

lemma call_handlers_fields:
  "call_handlers kiosk day am = Inr (am', out) \<Longrightarrow>
   campaign_start_dates am' = campaign_start_dates am
   \<and> icampaign am' = icampaign am
   \<and> length (crop_calendars am') = length (crop_calendars am)
   \<and> timed_event_dispatchers am' = timed_event_dispatchers am
   \<and> length (state_event_dispatchers am') = length (state_event_dispatchers am)"
  by (auto simp: call_handlers_def deliver_crop_finish_def
        split: list.splits sum.splits prod.splits)

lemma CropCalendar_call_error:
  "CropCalendar_call day c = Inl e \<Longrightarrow> e = TypeError ''day >= crop_end_date''"
  by (auto simp: CropCalendar_call_def finish_type_def
        split: prod.splits sum.splits option.splits if_splits)

lemma evaluate_events_error:
  "evaluate_events se cur zs = Inl e \<Longrightarrow> e = IndexError ''event.items()[0]''"
  by (induction se cur zs rule: evaluate_events.induct)
     (auto split: list.splits prod.splits sum.splits)

lemma StateEventsDispatcher_call_error:
  "StateEventsDispatcher_call kiosk day se = Inl e \<Longrightarrow> e = IndexError ''event.items()[0]''"
  by (auto simp: StateEventsDispatcher_call_def split: option.splits sum.splits
        dest: evaluate_events_error)

lemma call_state_dispatchers_error:
  "call_state_dispatchers kiosk day ds = Inl e \<Longrightarrow> e = IndexError ''event.items()[0]''"
  by (induction ds)
     (auto split: sum.splits prod.splits dest: StateEventsDispatcher_call_error)

lemma call_handlers_error:
  assumes "call_handlers kiosk day am = Inl e"
    and "crop_calendars am \<noteq> []"
    and "timed_event_dispatchers am \<noteq> []"
    and "state_event_dispatchers am \<noteq> []"
  shows "e = TypeError ''day >= crop_end_date'' \<or> e = IndexError ''event.items()[0]''"
  using assms
proof -
  from assms(2-4) obtain cc ccs te tes se ses where
    l: "crop_calendars am = cc # ccs" "timed_event_dispatchers am = te # tes"
       "state_event_dispatchers am = se # ses"
    by (auto simp: neq_Nil_conv)
  show ?thesis
  proof (cases "call_crop_calendar day cc")
    case (Inl e1)
    with assms(1) l have "e = e1" by (simp add: call_handlers_def)
    with Inl show ?thesis
      by (auto simp: call_crop_calendar_def split: option.splits sum.splits
            dest: CropCalendar_call_error)
  next
    case (Inr r)
    with assms(1) l have "call_state_events kiosk day se = Inl e"
      by (auto simp: call_handlers_def split: sum.splits prod.splits)
    then show ?thesis
      by (auto simp: call_state_events_def split: option.splits sum.splits
            dest: call_state_dispatchers_error)
  qed
qed

lemma length_ge2: "2 \<le> length xs \<Longrightarrow> \<exists>a b ys. xs = a # b # ys"
  by (cases xs; cases "tl xs") auto

lemma AgroManager_call_shape:
  assumes "manager_shape n am"
    and "AgroManager_call kiosk day am = Inr (am', out)"
  shows "manager_shape n am'"
proof (cases "campaign_start_dates am ! (icampaign am + 1) = Some day")
  case True
  with assms(1) have lt: "icampaign am + 1 < n"
    by (cases "icampaign am + 1 = n") (auto simp: manager_shape_def)
  with assms(1) have "2 \<le> length (crop_calendars am)" "2 \<le> length (timed_event_dispatchers am)"
    "2 \<le> length (state_event_dispatchers am)"
    by (simp_all add: manager_shape_def)
  then obtain cc c2 cs te t2 ts se s2 ss where
    l0: "crop_calendars am = cc # c2 # cs" "timed_event_dispatchers am = te # t2 # ts"
       "state_event_dispatchers am = se # s2 # ss"
    by (metis length_ge2)
  then obtain ccs tes ses where
    l: "crop_calendars am = cc # ccs" "timed_event_dispatchers am = te # tes"
       "state_event_dispatchers am = se # ses"
    by simp
  let ?am1 = "am\<lparr>icampaign := icampaign am + 1, crop_calendars := ccs,
                 timed_event_dispatchers := tes, state_event_dispatchers := ses\<rparr>"
  from assms True l have h: "call_handlers kiosk day ?am1 = Inr (am', out)"
    by (simp add: AgroManager_call_def switch_campaign_def manager_shape_def)
  from call_handlers_fields [OF h] assms(1) l lt show ?thesis
    by (auto simp: manager_shape_def)
next
  case False
  with assms have h: "call_handlers kiosk day am = Inr (am', out)"
    by (simp add: AgroManager_call_def manager_shape_def)
  from call_handlers_fields [OF h] assms(1) show ?thesis
    by (simp add: manager_shape_def)
qed

lemma AgroManager_call_error:
  assumes "manager_shape n am"
    and "AgroManager_call kiosk day am = Inl e"
  shows "e = TypeError ''day >= crop_end_date'' \<or> e = IndexError ''event.items()[0]''"
proof (cases "campaign_start_dates am ! (icampaign am + 1) = Some day")
  case True
  with assms(1) have lt: "icampaign am + 1 < n"
    by (cases "icampaign am + 1 = n") (auto simp: manager_shape_def)
  with assms(1) have "2 \<le> length (crop_calendars am)" "2 \<le> length (timed_event_dispatchers am)"
    "2 \<le> length (state_event_dispatchers am)"
    by (simp_all add: manager_shape_def)
  then obtain cc c2 ccs te t2 tes se s2 ses where
    l: "crop_calendars am = cc # c2 # ccs" "timed_event_dispatchers am = te # t2 # tes"
       "state_event_dispatchers am = se # s2 # ses"
    by (metis length_ge2)
  let ?am1 = "am\<lparr>icampaign := icampaign am + 1, crop_calendars := c2 # ccs,
                 timed_event_dispatchers := t2 # tes, state_event_dispatchers := s2 # ses\<rparr>"
  from assms True l have h: "call_handlers kiosk day ?am1 = Inl e"
    by (simp add: AgroManager_call_def switch_campaign_def manager_shape_def)
  show ?thesis by (rule call_handlers_error [OF h]) simp_all
next
  case False
  with assms have h: "call_handlers kiosk day am = Inl e"
    by (simp add: AgroManager_call_def manager_shape_def)
  from assms(1) show ?thesis
    by (intro call_handlers_error [OF h]) (auto simp: manager_shape_def)
qed

lemma CropCalendar_call_no_terminate:
  "CropCalendar_call day c = Inr (c', out) \<Longrightarrow> \<not> list_ex is_terminate out"
  by (auto simp: CropCalendar_call_def start_crop_def
        split: prod.splits sum.splits option.splits if_splits)

lemma TimedEventsDispatcher_call_no_terminate:
  "\<not> list_ex is_terminate (TimedEventsDispatcher_call day t)"
  by (auto simp: TimedEventsDispatcher_call_def list_ex_iff split: option.splits)

lemma evaluate_state_no_terminate:
  "evaluate_state se cur t kw p = (s, out) \<Longrightarrow> \<not> list_ex is_terminate out"
  by (auto simp: evaluate_state_def zero_condition_rising_def zero_condition_falling_def
        zero_condition_either_def Let_def
        split: zero_condition.splits option.splits if_splits)

lemma evaluate_events_no_terminate:
  "evaluate_events se cur zs = Inr (signs, out) \<Longrightarrow> \<not> list_ex is_terminate out"
proof (induction se cur zs arbitrary: signs out rule: evaluate_events.induct)
  case (1 se cur)
  then show ?case by simp
next
  case (2 se cur event p rest)
  from "2.prems" obtain t kw more s o1 signs' outs where
    ev: "event = (t, kw) # more"
    and es: "evaluate_state se cur t kw p = (s, o1)"
    and r: "evaluate_events se cur rest = Inr (signs', outs)"
    and out: "out = o1 @ outs"
    by (auto split: list.splits prod.splits sum.splits)
  from "2.IH" [OF ev refl es [symmetric] r] evaluate_state_no_terminate [OF es] out
  show ?case by simp
qed

lemma StateEventsDispatcher_call_no_terminate:
  "StateEventsDispatcher_call kiosk day se = Inr (se', out) \<Longrightarrow> \<not> list_ex is_terminate out"
  by (auto simp: StateEventsDispatcher_call_def split: option.splits sum.splits
        dest: evaluate_events_no_terminate)

lemma call_state_dispatchers_no_terminate:
  "call_state_dispatchers kiosk day ds = Inr (ds', out) \<Longrightarrow> \<not> list_ex is_terminate out"
proof (induction ds arbitrary: ds' out)
  case Nil
  then show ?case by simp
next
  case (Cons d ds)
  from Cons.prems obtain d' o1 r outs where
    c: "StateEventsDispatcher_call kiosk day d = Inr (d', o1)"
    and r: "call_state_dispatchers kiosk day ds = Inr (r, outs)"
    and out: "out = o1 @ outs"
    by (auto split: sum.splits prod.splits)
  from Cons.IH [OF r] StateEventsDispatcher_call_no_terminate [OF c] out
  show ?case by simp
qed

lemma call_handlers_no_terminate:
  assumes "call_handlers kiosk day am = Inr (am', out)"
  shows "\<not> list_ex is_terminate out"
proof -
  from assms obtain cc ccs cc' out1 te tes se ses se' out3 where
    c1: "call_crop_calendar day cc = Inr (cc', out1)"
    and c3: "call_state_events kiosk day se = Inr (se', out3)"
    and out: "out = out1 @ call_timed_events day te @ out3"
    by (auto simp: call_handlers_def split: list.splits sum.splits prod.splits)
  from c1 have "\<not> list_ex is_terminate out1"
    by (auto simp: call_crop_calendar_def split: option.splits sum.splits prod.splits
          dest: CropCalendar_call_no_terminate)
  moreover have "\<not> list_ex is_terminate (call_timed_events day te)"
    using TimedEventsDispatcher_call_no_terminate
    by (auto simp: call_timed_events_def list_ex_iff split: option.splits)
  moreover from c3 have "\<not> list_ex is_terminate out3"
    by (auto simp: call_state_events_def split: option.splits sum.splits prod.splits
          dest: call_state_dispatchers_no_terminate)
  ultimately show ?thesis using out by simp
qed

lemma AgroManager_call_no_terminate:
  "AgroManager_call kiosk day am = Inr (am', out) \<Longrightarrow> \<not> list_ex is_terminate out"
  by (auto simp: AgroManager_call_def split: if_splits sum.splits
        dest: call_handlers_no_terminate)

lemma on_CROP_FINISH_shape:
  "manager_shape n am \<Longrightarrow> AgroManager_on_CROP_FINISH am = Inr []"
  by (auto simp: manager_shape_def AgroManager_on_CROP_FINISH_def)

lemma AgroManager_run_shape:
  "manager_shape n am \<Longrightarrow> AgroManager_run am calls = Inr (am', out) \<Longrightarrow>
   manager_shape n am' \<and> \<not> list_ex is_terminate out"
proof (induction calls arbitrary: am out)
  case Nil
  then show ?case by simp
next
  case (Cons c calls)
  show ?case
  proof (cases c)
    case (Advance kiosk day)
    with Cons.prems(2) obtain am1 o1 outs where
      c1: "AgroManager_call kiosk day am = Inr (am1, o1)"
      and r: "AgroManager_run am1 calls = Inr (am', outs)"
      and out: "out = o1 @ outs"
      by (auto split: sum.splits prod.splits)
    from AgroManager_call_shape [OF Cons.prems(1) c1] have "manager_shape n am1" .
    from Cons.IH [OF this r] AgroManager_call_no_terminate [OF c1] out
    show ?thesis by simp
  next
    case CropFinished
    let ?am1 = "am\<lparr>crop_calendars := map (map_option CropCalendar_on_CROP_FINISH) (crop_calendars am)\<rparr>"
    from on_CROP_FINISH_shape [OF Cons.prems(1)] CropFinished Cons.prems(2) obtain outs where
      r: "AgroManager_run ?am1 calls = Inr (am', outs)"
      and out: "out = outs"
      by (auto split: sum.splits prod.splits)
    from Cons.prems(1) have "manager_shape n ?am1" by (simp add: manager_shape_def)
    from Cons.IH [OF this r] out show ?thesis by simp
  qed
qed

text \<open>
  C10.  For a manager initialized with at least one campaign and after any sequence of
  calls that did not raise: the three lists of bundles are not empty and hold one
  bundle per campaign not yet retired, at most \<open>N - 1\<close> bundles have been dropped, the
  index \<open>icampaign + 1\<close> is within \<open>campaign_start_dates\<close>, whose last entry is the
  sentinel, and the next call, for any kiosk and day, raises no exception other than
  those of the handlers themselves; in particular no \<open>IndexError\<close> from
  \<open>campaign_start_dates[_icampaign+1]\<close>, from \<open>pop(0)\<close> or from the accesses
  at index 0.
\<close>

theorem bundle_lists_never_empty:
  assumes "AgroManager_initialize agromanagement = Inr am0"
    and "agromanagement \<noteq> []"
    and "AgroManager_run am0 calls = Inr (am, out)"
  shows "crop_calendars am \<noteq> [] \<and> timed_event_dispatchers am \<noteq> []
       \<and> state_event_dispatchers am \<noteq> []
       \<and> icampaign am \<le> length agromanagement - 1
       \<and> length (crop_calendars am) = length agromanagement - icampaign am
       \<and> length (timed_event_dispatchers am) = length agromanagement - icampaign am
       \<and> length (state_event_dispatchers am) = length agromanagement - icampaign am
       \<and> icampaign am + 1 < length (campaign_start_dates am)
       \<and> last (campaign_start_dates am) = None
       \<and> (\<forall>kiosk day e. AgroManager_call kiosk day am = Inl e \<longrightarrow>
             e = TypeError ''day >= crop_end_date'' \<or> e = IndexError ''event.items()[0]'')"
proof -
  from initialize_manager_shape [OF assms(1) assms(2)]
  have "manager_shape (length agromanagement) am0" .
  from AgroManager_run_shape [OF this assms(3)]
  have s: "manager_shape (length agromanagement) am" by simp
  from s have l: "length (campaign_start_dates am) = length agromanagement + 1"
    and n: "campaign_start_dates am ! length agromanagement = None"
    by (simp_all add: manager_shape_def)
  from l have "campaign_start_dates am \<noteq> []" by auto
  then have "last (campaign_start_dates am)
      = campaign_start_dates am ! (length (campaign_start_dates am) - 1)"
    by (rule last_conv_nth)
  with l n have "last (campaign_start_dates am) = None" by simp
  moreover have "\<forall>kiosk day e. AgroManager_call kiosk day am = Inl e \<longrightarrow>
             e = TypeError ''day >= crop_end_date'' \<or> e = IndexError ''event.items()[0]''"
    using AgroManager_call_error [OF s] by blast
  ultimately show ?thesis
    using s by (auto simp: manager_shape_def)
qed

text \<open>
  C2.  For a manager initialized with at least one campaign, no sequence of calls
  empties the list of calendars: in every state that is reached
  \<^verbatim>\<open>_on_CROP_FINISH\<close> finds the list not empty and sends nothing, and no signal
  without arguments is among the effects of the run.
\<close>

theorem terminate_never_sent:
  assumes "AgroManager_initialize agromanagement = Inr am0"
    and "agromanagement \<noteq> []"
    and "AgroManager_run am0 calls = Inr (am, out)"
  shows "crop_calendars am \<noteq> [] \<and> AgroManager_on_CROP_FINISH am = Inr []
       \<and> \<not> list_ex is_terminate out"
proof -
  from initialize_manager_shape [OF assms(1) assms(2)]
  have "manager_shape (length agromanagement) am0" .
  from AgroManager_run_shape [OF this assms(3)]
  have s: "manager_shape (length agromanagement) am" and t: "\<not> list_ex is_terminate out"
    by simp_all
  from s have "crop_calendars am \<noteq> []" by (auto simp: manager_shape_def)
  with on_CROP_FINISH_shape [OF s] t show ?thesis by simp
qed
lemma initialize_two_campaigns:
  "AgroManager_initialize
     [[(DateKey 10, Some \<lparr>CropCalendar_item = Some \<lparr>kw_crop_id = ''wheat'', kw_crop_start_date = 12,
          kw_crop_start_type = sowing, kw_crop_end_date = None, kw_crop_end_type = maturity,
          kw_max_duration = 20\<rparr>, TimedEvents_item = None, StateEvents_item = None\<rparr>)],
      [(DateKey 40, None)]]
   = Inr \<lparr>campaign_start_dates = [Some 10, Some 40, None], start_date = None, end_date = None,
          crop_calendars = [Some (CropCalendar_init ''wheat'' 12 sowing None maturity 20), None],
          timed_event_dispatchers = [None, None], state_event_dispatchers = [None, None],
          tmp_date = Some 10, icampaign = 0\<rparr>"
  by code_simp

lemma run_two_campaigns:
  "AgroManager_run
       \<lparr>campaign_start_dates = [Some 10, Some 40, None], start_date = None, end_date = None,
        crop_calendars = [Some (CropCalendar_init ''wheat'' 12 sowing None maturity 20), None],
        timed_event_dispatchers = [None, None], state_event_dispatchers = [None, None],
        tmp_date = Some 10, icampaign = 0\<rparr>
       [Advance Map.empty 10, Advance Map.empty 12, Advance Map.empty 40, Advance Map.empty 41]
     = Inr (\<lparr>campaign_start_dates = [Some 10, Some 40, None], start_date = None, end_date = None,
             crop_calendars = [None], timed_event_dispatchers = [None],
             state_event_dispatchers = [None], tmp_date = Some 10, icampaign = 1\<rparr>,
            [LogInfo (StartingCrop ''wheat'' 12),
             Signal ''CROP_START'' (CropStartArgs 12 ''wheat'' sowing maturity)])"
  by code_simp

theorem bundle_lists_never_empty_witness:
  "AgroManager_initialize
     [[(DateKey 10, Some \<lparr>CropCalendar_item = Some \<lparr>kw_crop_id = ''wheat'', kw_crop_start_date = 12,
          kw_crop_start_type = sowing, kw_crop_end_date = None, kw_crop_end_type = maturity,
          kw_max_duration = 20\<rparr>, TimedEvents_item = None, StateEvents_item = None\<rparr>)],
      [(DateKey 40, None)]]
   = Inr \<lparr>campaign_start_dates = [Some 10, Some 40, None], start_date = None, end_date = None,
          crop_calendars = [Some (CropCalendar_init ''wheat'' 12 sowing None maturity 20), None],
          timed_event_dispatchers = [None, None], state_event_dispatchers = [None, None],
          tmp_date = Some 10, icampaign = 0\<rparr>
   \<and> AgroManager_run
       \<lparr>campaign_start_dates = [Some 10, Some 40, None], start_date = None, end_date = None,
        crop_calendars = [Some (CropCalendar_init ''wheat'' 12 sowing None maturity 20), None],
        timed_event_dispatchers = [None, None], state_event_dispatchers = [None, None],
        tmp_date = Some 10, icampaign = 0\<rparr>
       [Advance Map.empty 10, Advance Map.empty 12, Advance Map.empty 40, Advance Map.empty 41]
     = Inr (\<lparr>campaign_start_dates = [Some 10, Some 40, None], start_date = None, end_date = None,
             crop_calendars = [None], timed_event_dispatchers = [None],
             state_event_dispatchers = [None], tmp_date = Some 10, icampaign = 1\<rparr>,
            [LogInfo (StartingCrop ''wheat'' 12),
             Signal ''CROP_START'' (CropStartArgs 12 ''wheat'' sowing maturity)])
   \<and> AgroManager_call Map.empty 42
           \<lparr>campaign_start_dates = [Some 10, Some 40, None], start_date = None, end_date = None,
            crop_calendars = [None], timed_event_dispatchers = [None],
            state_event_dispatchers = [None], tmp_date = Some 10, icampaign = 1\<rparr>
         \<noteq> Inl (IndexError ''crop_calendars[0]'')"
  using bundle_lists_never_empty [OF initialize_two_campaigns _ run_two_campaigns]
    initialize_two_campaigns run_two_campaigns
  by fastforce

lemma initialize_one_campaign:
  "AgroManager_initialize [[(DateKey 10, None)]]
   = Inr \<lparr>campaign_start_dates = [Some 10, None], start_date = None, end_date = None,
          crop_calendars = [None], timed_event_dispatchers = [None],
          state_event_dispatchers = [None], tmp_date = Some 10, icampaign = 0\<rparr>"
  by code_simp

lemma run_one_campaign:
  "AgroManager_run
       \<lparr>campaign_start_dates = [Some 10, None], start_date = None, end_date = None,
        crop_calendars = [None], timed_event_dispatchers = [None],
        state_event_dispatchers = [None], tmp_date = Some 10, icampaign = 0\<rparr>
       [Advance Map.empty 10, CropFinished, Advance Map.empty 11, CropFinished]
     = Inr (\<lparr>campaign_start_dates = [Some 10, None], start_date = None, end_date = None,
             crop_calendars = [None], timed_event_dispatchers = [None],
             state_event_dispatchers = [None], tmp_date = Some 10, icampaign = 0\<rparr>, [])"
  by code_simp

theorem terminate_never_sent_witness:
  "AgroManager_initialize [[(DateKey 10, None)]]
   = Inr \<lparr>campaign_start_dates = [Some 10, None], start_date = None, end_date = None,
          crop_calendars = [None], timed_event_dispatchers = [None],
          state_event_dispatchers = [None], tmp_date = Some 10, icampaign = 0\<rparr>
   \<and> AgroManager_run
       \<lparr>campaign_start_dates = [Some 10, None], start_date = None, end_date = None,
        crop_calendars = [None], timed_event_dispatchers = [None],
        state_event_dispatchers = [None], tmp_date = Some 10, icampaign = 0\<rparr>
       [Advance Map.empty 10, CropFinished, Advance Map.empty 11, CropFinished]
     = Inr (\<lparr>campaign_start_dates = [Some 10, None], start_date = None, end_date = None,
             crop_calendars = [None], timed_event_dispatchers = [None],
             state_event_dispatchers = [None], tmp_date = Some 10, icampaign = 0\<rparr>, [])
   \<and> AgroManager_on_CROP_FINISH
       \<lparr>campaign_start_dates = [Some 10, None], start_date = None, end_date = None,
        crop_calendars = [None], timed_event_dispatchers = [None],
        state_event_dispatchers = [None], tmp_date = Some 10, icampaign = 0\<rparr> = Inr []"
  using terminate_never_sent [OF initialize_one_campaign _ run_one_campaign]
    initialize_one_campaign run_one_campaign
  by blast

text \<open>
  C6.  The check of the campaign dates compares every start date with the first one
  only, since \<open>tmp_date\<close> is set by the first call and never again.  The campaigns
  starting 2001-01-01, 2003-01-01 and 2002-01-01, all of them fallow, are accepted
  although their start dates are not increasing.
\<close>

theorem initialize_accepts_unordered_campaigns:
  "AgroManager_initialize
     [[(DateKey (ymd 2001 1 1), None)], [(DateKey (ymd 2003 1 1), None)], [(DateKey (ymd 2002 1 1), None)]]
   = Inr \<lparr>campaign_start_dates = [Some 730485, Some 731215, Some 730850, None],
          start_date = None, end_date = None,
          crop_calendars = [None, None, None],
          timed_event_dispatchers = [None, None, None],
          state_event_dispatchers = [None, None, None],
          tmp_date = Some 730485, icampaign = 0\<rparr>"
  by (simp add: AgroManager_initialize_def AgroManager_new_def AgroManager_check_campaign_date_def
        add_bundle_def ymd_def days_before_year_def days_before_month_def is_leap_def)

lemma max_list_fold: "max_list m xs = fold max xs m"
  by (induction xs arbitrary: m) (simp_all add: max.commute)

lemma max_list_Max: "max_list m xs = Max (insert m (set xs))"
  using Max.set_eq_fold [of m xs] by (simp add: max_list_fold)

lemma max_list_append: "max_list (max_list m xs) ys = max_list m (xs @ ys)"
  by (simp add: max_list_fold)

lemma Max_insert_zero:
  fixes D :: "nat set"
  assumes "finite D" and "D \<noteq> {}"
  shows "Max (insert 0 D) = Max D"
  using assms by simp

lemma validate_get_end_date:
  "CropCalendar_validate c cs ncs = Inr u \<Longrightarrow> \<exists>d. CropCalendar_get_end_date c = Inr (Some d)"
  by (cases "crop_end_type c")
     (auto simp: CropCalendar_validate_def CropCalendar_get_end_date_def
        split: if_splits sum.splits option.splits)

lemma build_crop_calendar_validated:
  "build_crop_calendar kw cs ncs = Inr (Some c) \<Longrightarrow> \<exists>d. CropCalendar_get_end_date c = Inr (Some d)"
  by (auto simp: build_crop_calendar_def Let_def split: option.splits sum.splits
        dest: validate_get_end_date)

lemma TimedEventsDispatcher_init_fields:
  "TimedEventsDispatcher_init s n c tbl = Inr t \<Longrightarrow>
   days_with_events t = count_keys tbl \<and> te_events_table t = tbl"
  by (auto simp: TimedEventsDispatcher_init_def Let_def split: if_splits sum.splits)

lemma build_TimedEventDispatchers_counters:
  "AgroManager_build_TimedEventDispatchers defs = Inr ds \<Longrightarrow>
   \<forall>t \<in> set ds. days_with_events t = count_keys (te_events_table t)"
proof (induction defs arbitrary: ds)
  case Nil
  then show ?case by simp
next
  case (Cons d defs)
  from Cons.prems obtain t r where
    t: "TimedEventsDispatcher_init (kw_te_event_signal d) (kw_te_name d) (kw_te_comment d)
          (kw_te_events_table d) = Inr t"
    and r: "AgroManager_build_TimedEventDispatchers defs = Inr r"
    and ds: "ds = t # r"
    by (auto split: sum.splits)
  from Cons.IH [OF r] TimedEventsDispatcher_init_fields [OF t] ds show ?case by simp
qed

lemma validate_events_nonempty:
  "validate_events tbl cs ncs = Inr u \<Longrightarrow> [] \<notin> set tbl"
  by (induction tbl) (auto split: list.splits if_splits)

lemma validate_dispatchers_nonempty:
  "validate_dispatchers ds cs ncs = Inr u \<Longrightarrow> \<forall>t \<in> set ds. [] \<notin> set (te_events_table t)"
  by (induction ds)
     (auto simp: TimedEventsDispatcher_validate_def split: sum.splits
        dest: validate_events_nonempty)

lemma build_timed_events_validated:
  assumes "build_timed_events te cs ncs = Inr (Some ds)"
  shows "\<forall>t \<in> set ds. dispatcher_validated t"
proof -
  from assms obtain defs u where
    b: "AgroManager_build_TimedEventDispatchers defs = Inr ds"
    and v: "validate_dispatchers ds cs ncs = Inr u"
    by (auto simp: build_timed_events_def split: option.splits sum.splits)
  from build_TimedEventDispatchers_counters [OF b] validate_dispatchers_nonempty [OF v]
  show ?thesis by (simp add: dispatcher_validated_def)
qed

lemma build_campaigns_validated:
  assumes "build_campaigns zs am = Inr am'"
    and "\<forall>c. Some c \<in> set (crop_calendars am) \<longrightarrow> (\<exists>d. CropCalendar_get_end_date c = Inr (Some d))"
    and "\<forall>ds. Some ds \<in> set (timed_event_dispatchers am) \<longrightarrow> (\<forall>t \<in> set ds. dispatcher_validated t)"
  shows "(\<forall>c. Some c \<in> set (crop_calendars am') \<longrightarrow> (\<exists>d. CropCalendar_get_end_date c = Inr (Some d)))
     \<and> (\<forall>ds. Some ds \<in> set (timed_event_dispatchers am') \<longrightarrow> (\<forall>t \<in> set ds. dispatcher_validated t))"
  using assms
proof (induction zs arbitrary: am)
  case Nil
  then show ?case by simp
next
  case (Cons z zs)
  obtain campaign cso ncs where z: "z = (campaign, cso, ncs)" by (cases z)
  from Cons.prems(1) z obtain cs body where cso: "cso = Some cs"
    and body: "map_of campaign (DateKey cs) = Some body"
    by (auto split: option.splits)
  show ?case
  proof (cases body)
    case None
    with Cons.prems(1) z cso body
    have r: "build_campaigns zs (add_bundle None None None am) = Inr am'" by simp
    show ?thesis
      by (rule Cons.IH [OF r]) (use Cons.prems(2,3) in \<open>auto simp: add_bundle_def\<close>)
  next
    case (Some cdef)
    with Cons.prems(1) z cso body obtain cc te se where
      cc: "build_crop_calendar (CropCalendar_item cdef) cs ncs = Inr cc"
      and te: "build_timed_events (TimedEvents_item cdef) cs ncs = Inr te"
      and r: "build_campaigns zs (add_bundle cc te se am) = Inr am'"
      by (auto split: sum.splits)
    show ?thesis
    proof (rule Cons.IH [OF r])
      show "\<forall>c. Some c \<in> set (crop_calendars (add_bundle cc te se am)) \<longrightarrow>
          (\<exists>d. CropCalendar_get_end_date c = Inr (Some d))"
        using Cons.prems(2) build_crop_calendar_validated [of "CropCalendar_item cdef" cs ncs] cc
        by (auto simp: add_bundle_def)
      show "\<forall>ds. Some ds \<in> set (timed_event_dispatchers (add_bundle cc te se am)) \<longrightarrow>
          (\<forall>t \<in> set ds. dispatcher_validated t)"
        using Cons.prems(3) build_timed_events_validated [of "TimedEvents_item cdef" cs ncs] te
        by (auto simp: add_bundle_def)
    qed
  qed
qed

lemma initialize_validated:
  assumes "AgroManager_initialize agromanagement = Inr am"
  shows "(\<forall>c. Some c \<in> set (crop_calendars am) \<longrightarrow> (\<exists>d. CropCalendar_get_end_date c = Inr (Some d)))
     \<and> (\<forall>ds. Some ds \<in> set (timed_event_dispatchers am) \<longrightarrow> (\<forall>t \<in> set ds. dispatcher_validated t))"
proof -
  from assms obtain am1 where
    chk: "check_campaigns agromanagement AgroManager_new = Inr am1"
    and bld: "build_campaigns
        (zip agromanagement
           (zip (butlast (campaign_start_dates am1 @ [None])) (tl (campaign_start_dates am1 @ [None]))))
        (am1\<lparr>campaign_start_dates := campaign_start_dates am1 @ [None]\<rparr>) = Inr am"
    by (auto simp: AgroManager_initialize_def Let_def split: sum.splits)
  from check_campaigns_fields [OF chk]
  have g1: "crop_calendars am1 = []" "timed_event_dispatchers am1 = []"
    by (simp_all add: AgroManager_new_def)
  show ?thesis
    by (rule build_campaigns_validated [OF bld]) (simp_all add: g1)
qed
lemma TimedEventsDispatcher_get_end_date_Max:
  assumes "dispatcher_validated t" and "te_events_table t \<noteq> []"
  shows "TimedEventsDispatcher_get_end_date t = Inr (Max (fst ` set (concat (te_events_table t))))"
proof -
  let ?tbl = "te_events_table t"
  from assms(1) have dwe: "days_with_events t = count_keys ?tbl" and ne: "[] \<notin> set ?tbl"
    by (simp_all add: dispatcher_validated_def)
  have keys: "fst ` set (days_with_events t) = fst ` set (concat ?tbl)"
    by (simp add: dwe keys_count_keys image_UN)
  from assms(2) ne have "concat ?tbl \<noteq> []"
    by (cases ?tbl) auto
  then have "fst ` set (concat ?tbl) \<noteq> {}" by simp
  with keys have "map fst (days_with_events t) \<noteq> []" by auto
  then obtain d ds where dds: "map fst (days_with_events t) = d # ds"
    by (cases "map fst (days_with_events t)") auto
  then have "set (d # ds) = fst ` set (days_with_events t)"
    by (metis set_map)
  with keys have "Max (insert d (set ds)) = Max (fst ` set (concat ?tbl))" by simp
  with dds show ?thesis
    by (simp add: TimedEventsDispatcher_get_end_date_def max_list_Max)
qed

lemma dispatcher_end_dates_Max:
  assumes "\<forall>t \<in> set ts. dispatcher_validated t \<and> te_events_table t \<noteq> []"
  shows "dispatcher_end_dates ts = Inr (map (\<lambda>t. Max (fst ` set (concat (te_events_table t)))) ts)"
  using assms by (induction ts) (simp_all add: TimedEventsDispatcher_get_end_date_Max)

lemma collect_end_dates_validated:
  assumes "\<forall>c. Some c \<in> fst ` set zs \<longrightarrow> (\<exists>d. CropCalendar_get_end_date c = Inr (Some d))"
    and "\<forall>ds. Some ds \<in> snd ` set zs \<longrightarrow>
           (\<forall>t \<in> set ds. dispatcher_validated t \<and> te_events_table t \<noteq> [])"
  shows "\<exists>cds tds. collect_end_dates zs = Inr (map Some cds, tds)
     \<and> set cds = {d. \<exists>c. Some c \<in> fst ` set zs \<and> CropCalendar_get_end_date c = Inr (Some d)}
     \<and> set tds = {d. \<exists>ds t. Some ds \<in> snd ` set zs \<and> t \<in> set ds
                      \<and> d = Max (fst ` set (concat (te_events_table t)))}"
  using assms
proof (induction zs)
  case Nil
  then show ?case by simp
next
  case (Cons z zs)
  obtain cc teds where z: "z = (cc, teds)" by (cases z)
  have "\<exists>cds tds. collect_end_dates zs = Inr (map Some cds, tds)
     \<and> set cds = {d. \<exists>c. Some c \<in> fst ` set zs \<and> CropCalendar_get_end_date c = Inr (Some d)}
     \<and> set tds = {d. \<exists>ds t. Some ds \<in> snd ` set zs \<and> t \<in> set ds
                      \<and> d = Max (fst ` set (concat (te_events_table t)))}"
    by (rule Cons.IH) (use Cons.prems in auto)
  then obtain cds tds where
    r: "collect_end_dates zs = Inr (map Some cds, tds)"
    and c: "set cds = {d. \<exists>c. Some c \<in> fst ` set zs \<and> CropCalendar_get_end_date c = Inr (Some d)}"
    and t: "set tds = {d. \<exists>ds t. Some ds \<in> snd ` set zs \<and> t \<in> set ds
                      \<and> d = Max (fst ` set (concat (te_events_table t)))}"
    by blast
  have "\<exists>cd. (case cc of None \<Rightarrow> Inr [] | Some c \<Rightarrow> map_sum id (\<lambda>d. [d]) (CropCalendar_get_end_date c))
          = Inr (map Some cd)
        \<and> set cd = {d. \<exists>c. cc = Some c \<and> CropCalendar_get_end_date c = Inr (Some d)}"
  proof (cases cc)
    case None
    then show ?thesis by simp
  next
    case (Some c0)
    with Cons.prems(1) z obtain d where "CropCalendar_get_end_date c0 = Inr (Some d)" by auto
    with Some show ?thesis by (intro exI [of _ "[d]"]) auto
  qed
  then obtain cd where
    cd: "(case cc of None \<Rightarrow> Inr [] | Some c \<Rightarrow> map_sum id (\<lambda>d. [d]) (CropCalendar_get_end_date c))
          = Inr (map Some cd)"
    and cds: "set cd = {d. \<exists>c. cc = Some c \<and> CropCalendar_get_end_date c = Inr (Some d)}"
    by blast
  have "\<exists>td. (case teds of None \<Rightarrow> Inr [] | Some ts \<Rightarrow> dispatcher_end_dates ts) = Inr td
        \<and> set td = {d. \<exists>ds t. teds = Some ds \<and> t \<in> set ds
                      \<and> d = Max (fst ` set (concat (te_events_table t)))}"
  proof (cases teds)
    case None
    then show ?thesis by simp
  next
    case (Some ts)
    with Cons.prems(2) z
    have "\<forall>t \<in> set ts. dispatcher_validated t \<and> te_events_table t \<noteq> []" by auto
    from dispatcher_end_dates_Max [OF this] Some show ?thesis by auto
  qed
  then obtain td where
    td: "(case teds of None \<Rightarrow> Inr [] | Some ts \<Rightarrow> dispatcher_end_dates ts) = Inr td"
    and tds: "set td = {d. \<exists>ds t. teds = Some ds \<and> t \<in> set ds
                      \<and> d = Max (fst ` set (concat (te_events_table t)))}"
    by blast
  have e: "collect_end_dates (z # zs) = Inr (map Some (cd @ cds), td @ tds)"
    using z r cd td by simp
  have s1: "set (cd @ cds) =
      {d. \<exists>c. Some c \<in> fst ` set (z # zs) \<and> CropCalendar_get_end_date c = Inr (Some d)}"
    using c cds z by auto
  have s2: "set (td @ tds) =
      {d. \<exists>ds t. Some ds \<in> snd ` set (z # zs) \<and> t \<in> set ds
            \<and> d = Max (fst ` set (concat (te_events_table t)))}"
    using t tds z by auto
  from e s1 s2 show ?case by blast
qed

text \<open>
  C4, as amended.  For a manager as \<^verbatim>\<open>initialize\<close> returns it, all of whose tables
  of timed events have at least one entry: when some campaign has a calendar or a
  table of timed events, \<open>end_date\<close> is the latest of the calendars' end dates
  (\<open>get_end_date\<close>) and the tables' last days, and it is stored; \<open>end_date\<close> raises
  an exception exactly when no campaign has a calendar or a table of timed events, and
  the exception is then the \<open>PCSEError\<close> for an empty agromanagement definition.
\<close>

theorem end_date_is_latest:
  assumes "AgroManager_initialize agromanagement = Inr am"
    and "\<forall>ds. Some ds \<in> set (timed_event_dispatchers am) \<longrightarrow>
           (\<forall>t \<in> set ds. te_events_table t \<noteq> [])"
    and "D = {d. \<exists>c. Some c \<in> set (crop_calendars am) \<and> CropCalendar_get_end_date c = Inr (Some d)}
           \<union> {d. \<exists>ds t. Some ds \<in> set (timed_event_dispatchers am) \<and> t \<in> set ds
                   \<and> d = Max (fst ` set (concat (te_events_table t)))}"
  shows "(D \<noteq> {} \<longrightarrow> AgroManager_end_date am = Inr (Max D, am\<lparr>end_date := Some (Max D)\<rparr>))
       \<and> ((\<exists>e. AgroManager_end_date am = Inl e) \<longleftrightarrow>
            (\<forall>c. Some c \<notin> set (crop_calendars am))
            \<and> (\<forall>ds. Some ds \<in> set (timed_event_dispatchers am) \<longrightarrow> ds = []))
       \<and> (\<forall>e. AgroManager_end_date am = Inl e \<longrightarrow> e = PCSEError EmptyAgromanagement)"
proof -
  let ?zs = "zip (crop_calendars am) (timed_event_dispatchers am)"
  from initialize_shape [OF assms(1)]
  have len: "length (crop_calendars am) = length (timed_event_dispatchers am)"
    and memo: "end_date am = None"
    by simp_all
  have f: "fst ` set ?zs = set (crop_calendars am)"
    using len by (metis map_fst_zip set_map)
  have s: "snd ` set ?zs = set (timed_event_dispatchers am)"
    using len by (metis map_snd_zip set_map)
  from initialize_validated [OF assms(1)]
  have v1: "\<forall>c. Some c \<in> fst ` set ?zs \<longrightarrow> (\<exists>d. CropCalendar_get_end_date c = Inr (Some d))"
    and v2: "\<forall>ds. Some ds \<in> snd ` set ?zs \<longrightarrow>
           (\<forall>t \<in> set ds. dispatcher_validated t \<and> te_events_table t \<noteq> [])"
    using assms(2) unfolding f s by auto
  from collect_end_dates_validated [OF v1 v2] obtain cds tds where
    col: "collect_end_dates ?zs = Inr (map Some cds, tds)"
    and D: "D = set cds \<union> set tds"
    unfolding f s assms(3) by blast
  have mt: "map the (map Some cds) = cds" by (simp add: comp_def)
  have e2: "(if tds \<noteq> [] then max_list (if cds \<noteq> [] then max_list 0 cds else 0) tds
             else (if cds \<noteq> [] then max_list 0 cds else 0)) = max_list 0 (cds @ tds)"
    by (cases cds; cases tds) (simp_all add: max_list_append [symmetric])
  have nonempty: "AgroManager_end_date am = Inr (Max D, am\<lparr>end_date := Some (Max D)\<rparr>)"
    if "D \<noteq> {}"
  proof -
    from that D have ne: "\<not> (cds = [] \<and> tds = [])" by auto
    have "finite D" using D by simp
    from this that have "Max (insert 0 D) = Max D" by (rule Max_insert_zero)
    then have m: "max_list 0 (cds @ tds) = Max D"
      by (simp add: max_list_Max D)
    have nn: "None \<notin> set (map Some cds)" by auto
    from ne have c1: "\<not> (map Some cds = [] \<and> tds = [])" by simp
    show ?thesis
      unfolding AgroManager_end_date_def memo col
      using c1 nn e2 m by (auto simp add: mt Let_def simp del: set_map map_map split: if_splits)
  qed
  have empty: "AgroManager_end_date am = Inl (PCSEError EmptyAgromanagement)" if "D = {}"
  proof -
    from that D have "cds = []" "tds = []" by auto
    then show ?thesis
      unfolding AgroManager_end_date_def memo col by simp
  qed
  have Dempty: "D = {} \<longleftrightarrow>
      (\<forall>c. Some c \<notin> set (crop_calendars am))
      \<and> (\<forall>ds. Some ds \<in> set (timed_event_dispatchers am) \<longrightarrow> ds = [])"
  proof
    assume d: "D = {}"
    have "Some c \<notin> set (crop_calendars am)" for c
    proof
      assume "Some c \<in> set (crop_calendars am)"
      with v1 f obtain d' where "CropCalendar_get_end_date c = Inr (Some d')" by auto
      with \<open>Some c \<in> set (crop_calendars am)\<close> have "d' \<in> D" unfolding assms(3) by blast
      with d show False by simp
    qed
    moreover have "ds = []" if "Some ds \<in> set (timed_event_dispatchers am)" for ds
    proof (rule ccontr)
      assume "ds \<noteq> []"
      then obtain t where "t \<in> set ds" by (cases ds) auto
      with that have "Max (fst ` set (concat (te_events_table t))) \<in> D"
        unfolding assms(3) by blast
      with d show False by simp
    qed
    ultimately show "(\<forall>c. Some c \<notin> set (crop_calendars am))
      \<and> (\<forall>ds. Some ds \<in> set (timed_event_dispatchers am) \<longrightarrow> ds = [])"
      by blast
  next
    assume "(\<forall>c. Some c \<notin> set (crop_calendars am))
      \<and> (\<forall>ds. Some ds \<in> set (timed_event_dispatchers am) \<longrightarrow> ds = [])"
    then show "D = {}" unfolding assms(3) by auto
  qed
  show ?thesis
  proof (cases "D = {}")
    case True
    with empty Dempty show ?thesis by auto
  next
    case False
    with nonempty Dempty show ?thesis by auto
  qed
qed
lemma ymd_examples:
  "ymd 2001 3 1 = 730544" "ymd 2001 7 29 = 730694" "ymd 2002 1 1 = 730850"
  by (simp_all add: ymd_def days_before_year_def days_before_month_def is_leap_def)

lemma initialize_maturity_then_fallow:
  "AgroManager_initialize
     [[(DateKey 730544, Some \<lparr>CropCalendar_item = Some \<lparr>kw_crop_id = ''wheat'',
          kw_crop_start_date = 730544, kw_crop_start_type = sowing, kw_crop_end_date = None,
          kw_crop_end_type = maturity, kw_max_duration = 150\<rparr>,
        TimedEvents_item = None, StateEvents_item = None\<rparr>)],
      [(DateKey 730850, None)]]
   = Inr \<lparr>campaign_start_dates = [Some 730544, Some 730850, None], start_date = None, end_date = None,
          crop_calendars = [Some (CropCalendar_init ''wheat'' 730544 sowing None maturity 150), None],
          timed_event_dispatchers = [None, None], state_event_dispatchers = [None, None],
          tmp_date = Some 730544, icampaign = 0\<rparr>"
  by (simp add: AgroManager_initialize_def AgroManager_new_def AgroManager_check_campaign_date_def
        add_bundle_def build_crop_calendar_def build_timed_events_def build_state_events_def
        CropCalendar_init_def CropCalendar_validate_def date_plus_days_def check_date_range_def)

lemma initialize_empty_table:
  "AgroManager_initialize
     [[(DateKey 730544, Some \<lparr>CropCalendar_item = Some \<lparr>kw_crop_id = ''wheat'',
          kw_crop_start_date = 730544, kw_crop_start_type = sowing, kw_crop_end_date = None,
          kw_crop_end_type = maturity, kw_max_duration = 150\<rparr>,
        TimedEvents_item = Some [\<lparr>kw_te_event_signal = ''irrigate'', kw_te_name = ''irrigation'',
          kw_te_comment = ''none'', kw_te_events_table = []\<rparr>],
        StateEvents_item = None\<rparr>)]]
   = Inr \<lparr>campaign_start_dates = [Some 730544, None], start_date = None, end_date = None,
          crop_calendars = [Some (CropCalendar_init ''wheat'' 730544 sowing None maturity 150)],
          timed_event_dispatchers =
            [Some [\<lparr>te_event_signal = ''IRRIGATE'', te_events_table = [], days_with_events = [],
                    te_name = ''irrigation'', te_comment = ''none''\<rparr>]],
          state_event_dispatchers = [None],
          tmp_date = Some 730544, icampaign = 0\<rparr>"
  by (simp add: AgroManager_initialize_def AgroManager_new_def AgroManager_check_campaign_date_def
        add_bundle_def build_crop_calendar_def build_timed_events_def build_state_events_def
        CropCalendar_init_def CropCalendar_validate_def date_plus_days_def check_date_range_def
        TimedEventsDispatcher_init_def hasattr_signals_def getattr_signals_def TestSignals_def
        count_keys_def multi_keys_def TimedEventsDispatcher_validate_def)

text \<open>
  Without the condition on the tables the statement fails: for one campaign with a
  calendar and one table of timed events that has no entry, \<^verbatim>\<open>initialize\<close>
  succeeds and \<open>end_date\<close> raises the \<open>ValueError\<close> of \<^verbatim>\<open>max\<close> on an empty
  counter.
\<close>

theorem end_date_empty_table_counterexample:
  "AgroManager_initialize
     [[(DateKey (ymd 2001 3 1), Some \<lparr>CropCalendar_item = Some \<lparr>kw_crop_id = ''wheat'',
          kw_crop_start_date = ymd 2001 3 1, kw_crop_start_type = sowing, kw_crop_end_date = None,
          kw_crop_end_type = maturity, kw_max_duration = 150\<rparr>,
        TimedEvents_item = Some [\<lparr>kw_te_event_signal = ''irrigate'', kw_te_name = ''irrigation'',
          kw_te_comment = ''none'', kw_te_events_table = []\<rparr>],
        StateEvents_item = None\<rparr>)]]
   = Inr \<lparr>campaign_start_dates = [Some 730544, None], start_date = None, end_date = None,
          crop_calendars = [Some (CropCalendar_init ''wheat'' 730544 sowing None maturity 150)],
          timed_event_dispatchers =
            [Some [\<lparr>te_event_signal = ''IRRIGATE'', te_events_table = [], days_with_events = [],
                    te_name = ''irrigation'', te_comment = ''none''\<rparr>]],
          state_event_dispatchers = [None],
          tmp_date = Some 730544, icampaign = 0\<rparr>
   \<and> AgroManager_end_date
       \<lparr>campaign_start_dates = [Some 730544, None], start_date = None, end_date = None,
        crop_calendars = [Some (CropCalendar_init ''wheat'' 730544 sowing None maturity 150)],
        timed_event_dispatchers =
          [Some [\<lparr>te_event_signal = ''IRRIGATE'', te_events_table = [], days_with_events = [],
                  te_name = ''irrigation'', te_comment = ''none''\<rparr>]],
        state_event_dispatchers = [None],
        tmp_date = Some 730544, icampaign = 0\<rparr>
     = Inl (ValueError ''max() arg is an empty sequence'')"
  unfolding ymd_examples initialize_empty_table
  by (simp add: AgroManager_end_date_def CropCalendar_get_end_date_def CropCalendar_init_def
        date_plus_days_def TimedEventsDispatcher_get_end_date_def)

theorem end_date_is_latest_witness:
  "AgroManager_initialize
     [[(DateKey (ymd 2001 3 1), Some \<lparr>CropCalendar_item = Some \<lparr>kw_crop_id = ''wheat'',
          kw_crop_start_date = ymd 2001 3 1, kw_crop_start_type = sowing, kw_crop_end_date = None,
          kw_crop_end_type = maturity, kw_max_duration = 150\<rparr>,
        TimedEvents_item = None, StateEvents_item = None\<rparr>)],
      [(DateKey (ymd 2002 1 1), None)]]
   = Inr \<lparr>campaign_start_dates = [Some 730544, Some 730850, None], start_date = None, end_date = None,
          crop_calendars = [Some (CropCalendar_init ''wheat'' 730544 sowing None maturity 150), None],
          timed_event_dispatchers = [None, None], state_event_dispatchers = [None, None],
          tmp_date = Some 730544, icampaign = 0\<rparr>
   \<and> AgroManager_end_date
       \<lparr>campaign_start_dates = [Some 730544, Some 730850, None], start_date = None, end_date = None,
        crop_calendars = [Some (CropCalendar_init ''wheat'' 730544 sowing None maturity 150), None],
        timed_event_dispatchers = [None, None], state_event_dispatchers = [None, None],
        tmp_date = Some 730544, icampaign = 0\<rparr>
     = Inr (ymd 2001 3 1 + 150,
            \<lparr>campaign_start_dates = [Some 730544, Some 730850, None], start_date = None,
             end_date = Some (ymd 2001 3 1 + 150),
             crop_calendars = [Some (CropCalendar_init ''wheat'' 730544 sowing None maturity 150), None],
             timed_event_dispatchers = [None, None], state_event_dispatchers = [None, None],
             tmp_date = Some 730544, icampaign = 0\<rparr>)
   \<and> ymd 2001 3 1 + 150 = ymd 2001 7 29
   \<and> ymd 2001 3 1 + 150 \<noteq> ymd 2002 1 1"
proof -
  let ?am = "\<lparr>campaign_start_dates = [Some 730544, Some 730850, None], start_date = None, end_date = None,
        crop_calendars = [Some (CropCalendar_init ''wheat'' 730544 sowing None maturity 150), None],
        timed_event_dispatchers = [None, None], state_event_dispatchers = [None, None],
        tmp_date = Some 730544, icampaign = 0\<rparr>"
  let ?D = "{d. \<exists>c. Some c \<in> set (crop_calendars ?am) \<and> CropCalendar_get_end_date c = Inr (Some d)}
           \<union> {d. \<exists>ds t. Some ds \<in> set (timed_event_dispatchers ?am) \<and> t \<in> set ds
                   \<and> d = Max (fst ` set (concat (te_events_table t)))}"
  have h2: "\<forall>ds. Some ds \<in> set (timed_event_dispatchers ?am) \<longrightarrow>
           (\<forall>t \<in> set ds. te_events_table t \<noteq> [])"
    by simp
  have D: "?D = {730694}"
    by (auto simp: CropCalendar_get_end_date_def CropCalendar_init_def date_plus_days_def)
  from end_date_is_latest [OF initialize_maturity_then_fallow h2 refl]
  have "?D \<noteq> {} \<longrightarrow> AgroManager_end_date ?am = Inr (Max ?D, ?am\<lparr>end_date := Some (Max ?D)\<rparr>)"
    by (rule conjunct1)
  then have "AgroManager_end_date ?am = Inr (730694, ?am\<lparr>end_date := Some 730694\<rparr>)"
    unfolding D by simp
  then show ?thesis
    unfolding ymd_examples initialize_maturity_then_fallow by simp
qed

text \<open>
  C8.  When the day is the start date of the upcoming campaign, the call drops the
  bundle at the front and advances \<open>icampaign\<close> before any handler runs: the call
  is the call of the handlers on the manager without the retired bundle, its result
  does not depend on the retired calendar and dispatchers, and the lists of the
  resulting manager are those of the campaigns from the new one onwards.
\<close>

theorem campaign_switch_before_handlers:
  assumes "icampaign am + 1 < length (campaign_start_dates am)"
    and "campaign_start_dates am ! (icampaign am + 1) = Some day"
    and "crop_calendars am = cc # ccs"
    and "timed_event_dispatchers am = te # tes"
    and "state_event_dispatchers am = se # ses"
  shows "AgroManager_call kiosk day am =
           call_handlers kiosk day
             (am\<lparr>icampaign := icampaign am + 1, crop_calendars := ccs,
                 timed_event_dispatchers := tes, state_event_dispatchers := ses\<rparr>)
       \<and> AgroManager_call kiosk day
             (am\<lparr>crop_calendars := cc' # ccs, timed_event_dispatchers := te' # tes,
                 state_event_dispatchers := se' # ses\<rparr>)
           = AgroManager_call kiosk day am
       \<and> (\<forall>am' out. AgroManager_call kiosk day am = Inr (am', out) \<longrightarrow>
             icampaign am' = icampaign am + 1
             \<and> length (crop_calendars am') = length ccs
             \<and> tl (crop_calendars am') = deliver_crop_finish out (tl ccs)
             \<and> timed_event_dispatchers am' = tes
             \<and> tl (state_event_dispatchers am') = tl ses)"
proof (intro conjI allI impI)
  show c: "AgroManager_call kiosk day am =
           call_handlers kiosk day
             (am\<lparr>icampaign := icampaign am + 1, crop_calendars := ccs,
                 timed_event_dispatchers := tes, state_event_dispatchers := ses\<rparr>)"
    using assms by (simp add: AgroManager_call_def switch_campaign_def)
  show "AgroManager_call kiosk day
             (am\<lparr>crop_calendars := cc' # ccs, timed_event_dispatchers := te' # tes,
                 state_event_dispatchers := se' # ses\<rparr>)
           = AgroManager_call kiosk day am"
    using assms by (simp add: AgroManager_call_def switch_campaign_def)
  fix am' out
  assume r: "AgroManager_call kiosk day am = Inr (am', out)"
  let ?am1 = "am\<lparr>icampaign := icampaign am + 1, crop_calendars := ccs,
                 timed_event_dispatchers := tes, state_event_dispatchers := ses\<rparr>"
  from r c have h: "call_handlers kiosk day ?am1 = Inr (am', out)" by simp
  from h show "icampaign am' = icampaign am + 1"
    by (auto simp: call_handlers_def Let_def split: list.splits sum.splits prod.splits)
  from h show "length (crop_calendars am') = length ccs"
    by (auto simp: call_handlers_def Let_def deliver_crop_finish_def
          split: list.splits sum.splits prod.splits)
  from h show "tl (crop_calendars am') = deliver_crop_finish out (tl ccs)"
    by (auto simp: call_handlers_def Let_def deliver_crop_finish_def
          split: list.splits sum.splits prod.splits)
  from h show "timed_event_dispatchers am' = tes"
    by (auto simp: call_handlers_def Let_def split: list.splits sum.splits prod.splits)
  from h show "tl (state_event_dispatchers am') = tl ses"
    by (auto simp: call_handlers_def Let_def split: list.splits sum.splits prod.splits)
qed

theorem campaign_switch_before_handlers_witness:
  "campaign_start_dates
     \<lparr>campaign_start_dates = [Some 10, Some 20, None], start_date = None, end_date = None,
      crop_calendars = [Some (CropCalendar_init ''wheat'' 10 sowing None maturity 30\<lparr>duration := 9, in_crop_cycle := True\<rparr>),
                        Some (CropCalendar_init ''maize'' 20 emergence None maturity 30)],
      timed_event_dispatchers = [None, None], state_event_dispatchers = [None, None],
      tmp_date = Some 10, icampaign = 0\<rparr> ! (0 + 1) = Some 20
   \<and> AgroManager_call Map.empty 20
     \<lparr>campaign_start_dates = [Some 10, Some 20, None], start_date = None, end_date = None,
      crop_calendars = [Some (CropCalendar_init ''wheat'' 10 sowing None maturity 30\<lparr>duration := 9, in_crop_cycle := True\<rparr>),
                        Some (CropCalendar_init ''maize'' 20 emergence None maturity 30)],
      timed_event_dispatchers = [None, None], state_event_dispatchers = [None, None],
      tmp_date = Some 10, icampaign = 0\<rparr>
     = Inr (\<lparr>campaign_start_dates = [Some 10, Some 20, None], start_date = None, end_date = None,
             crop_calendars = [Some (CropCalendar_init ''maize'' 20 emergence None maturity 30\<lparr>in_crop_cycle := True\<rparr>)],
             timed_event_dispatchers = [None], state_event_dispatchers = [None],
             tmp_date = Some 10, icampaign = 1\<rparr>,
            [LogInfo (StartingCrop ''maize'' 20),
             Signal ''CROP_START'' (CropStartArgs 20 ''maize'' emergence maturity)])"
  using campaign_switch_before_handlers
    [of "\<lparr>campaign_start_dates = [Some 10, Some 20, None], start_date = None, end_date = None,
      crop_calendars = [Some (CropCalendar_init ''wheat'' 10 sowing None maturity 30\<lparr>duration := 9, in_crop_cycle := True\<rparr>),
                        Some (CropCalendar_init ''maize'' 20 emergence None maturity 30)],
      timed_event_dispatchers = [None, None], state_event_dispatchers = [None, None],
      tmp_date = Some 10, icampaign = 0\<rparr>" 20
      "Some (CropCalendar_init ''wheat'' 10 sowing None maturity 30\<lparr>duration := 9, in_crop_cycle := True\<rparr>)"
      "[Some (CropCalendar_init ''maize'' 20 emergence None maturity 30)]"
      None "[None]" None "[None]" Map.empty]
  by (simp add: call_handlers_def call_crop_calendar_def call_timed_events_def
        call_state_events_def CropCalendar_call_def CropCalendar_init_def start_crop_def
        count_duration_def finish_type_def deliver_crop_finish_def)

end
